theory Spec2Isabelle
  imports Complex_Main
begin

section \<open>Token-classification label-quality ranking (cleanlab/token\_classification/rank.py)\<close>

text \<open>
  Python exceptions are values.  The constructors name the exception classes raised by
  the statements of \<^verbatim>\<open>rank.py\<close> and by the numpy and pandas calls it makes; an
  \<^verbatim>\<open>assert\<close> carries its message.  The token scorer of \<^verbatim>\<open>cleanlab.rank\<close> is not
  part of this file: whatever it raises is passed on unchanged and is tagged
  \<open>ScorerError\<close> here.
\<close>

datatype error =
    AssertionError string
  | StopIteration
  | IndexError
  | ValueError
  | ScorerError string

subsection \<open>Flattening and re-nesting\<close>

text \<open>
  \<^verbatim>\<open>[l for label in labels for l in label]\<close>: the sentences one after the other.
\<close>

fun flatten :: "'a list list \<Rightarrow> 'a list" where
  "flatten [] = []"
| "flatten (label # labels) = label @ flatten labels"

text \<open>
  \<^verbatim>\<open>[next(i) for _ in range(length)]\<close>: the iterator \<^verbatim>\<open>i\<close> is the list of the
  elements not yet consumed; \<^verbatim>\<open>next\<close> on the exhausted iterator raises
  \<^verbatim>\<open>StopIteration\<close>, which leaves the comprehension as it is.  The result is the
  sentence read and the iterator after it.
\<close>

fun next_n :: "nat \<Rightarrow> 'a list \<Rightarrow> error + ('a list \<times> 'a list)" where
  "next_n 0 i = Inr ([], i)"
| "next_n (Suc n) [] = Inl StopIteration"
| "next_n (Suc n) (x # i) =
     (case next_n n i of
        Inl e \<Rightarrow> Inl e
      | Inr (sentence, i') \<Rightarrow> Inr (x # sentence, i'))"

fun nested_list_from :: "'a list \<Rightarrow> nat list \<Rightarrow> error + 'a list list" where
  "nested_list_from i [] = Inr []"
| "nested_list_from i (len # sentence_length) =
     (case next_n len i of
        Inl e \<Rightarrow> Inl e
      | Inr (sentence, i') \<Rightarrow>
          (case nested_list_from i' sentence_length of
             Inl e \<Rightarrow> Inl e
           | Inr sentences \<Rightarrow> Inr (sentence # sentences)))"

text \<open>
  \<^verbatim>\<open>def nested_list(x, sentence_length): i = iter(x); return [[next(i) ...] ...]\<close>
\<close>

definition nested_list :: "'a list \<Rightarrow> nat list \<Rightarrow> error + 'a list list" where
  "nested_list x sentence_length = nested_list_from x sentence_length"

subsection \<open>numpy floats\<close>

text \<open>
  Sentence scores are computed in numpy's float64 arithmetic.  The model keeps the special
  values of IEEE 754 and their rules; a finite float is the real number it stands for.  A
  result beyond the largest double overflows to an infinity.  Rounding inside the range,
  underflow and the sign of zero are not modelled: a finite result within the range is
  taken exact, and a zero is taken positive.  numpy reports overflow and invalid
  operations as warnings, never as exceptions.
\<close>

datatype npfloat = Fin real | PInf | NInf | NaN

text \<open>
  The largest double, \<open>(2 - 2 ^ -52) * 2 ^ 1023\<close>, and the result of an operation whose
  exact value is \<open>r\<close>.
\<close>

definition DBL_MAX :: real where
  "DBL_MAX = 2 ^ 1024 - 2 ^ 971"

definition fl :: "real \<Rightarrow> npfloat" where
  "fl r = (if DBL_MAX < r then PInf else if r < - DBL_MAX then NInf else Fin r)"

fun np_add :: "npfloat \<Rightarrow> npfloat \<Rightarrow> npfloat" where
  "np_add NaN _ = NaN"
| "np_add _ NaN = NaN"
| "np_add PInf NInf = NaN"
| "np_add NInf PInf = NaN"
| "np_add PInf _ = PInf"
| "np_add _ PInf = PInf"
| "np_add NInf _ = NInf"
| "np_add _ NInf = NInf"
| "np_add (Fin a) (Fin b) = fl (a + b)"

fun np_neg :: "npfloat \<Rightarrow> npfloat" where
  "np_neg (Fin a) = Fin (- a)"
| "np_neg PInf = NInf"
| "np_neg NInf = PInf"
| "np_neg NaN = NaN"

definition np_sub :: "npfloat \<Rightarrow> npfloat \<Rightarrow> npfloat" where
  "np_sub a b = np_add a (np_neg b)"

fun np_mul :: "npfloat \<Rightarrow> npfloat \<Rightarrow> npfloat" where
  "np_mul NaN _ = NaN"
| "np_mul _ NaN = NaN"
| "np_mul (Fin a) (Fin b) = fl (a * b)"
| "np_mul (Fin a) PInf = (if a = 0 then NaN else if 0 < a then PInf else NInf)"
| "np_mul (Fin a) NInf = (if a = 0 then NaN else if 0 < a then NInf else PInf)"
| "np_mul PInf (Fin b) = (if b = 0 then NaN else if 0 < b then PInf else NInf)"
| "np_mul NInf (Fin b) = (if b = 0 then NaN else if 0 < b then NInf else PInf)"
| "np_mul PInf PInf = PInf"
| "np_mul PInf NInf = NInf"
| "np_mul NInf PInf = NInf"
| "np_mul NInf NInf = PInf"

fun np_div :: "npfloat \<Rightarrow> npfloat \<Rightarrow> npfloat" where
  "np_div NaN _ = NaN"
| "np_div _ NaN = NaN"
| "np_div (Fin a) (Fin b) =
     (if b = 0 then (if a = 0 then NaN else if 0 < a then PInf else NInf) else fl (a / b))"
| "np_div (Fin a) _ = Fin 0"
| "np_div PInf (Fin b) = (if 0 \<le> b then PInf else NInf)"
| "np_div NInf (Fin b) = (if 0 \<le> b then NInf else PInf)"
| "np_div _ _ = NaN"

fun np_exp :: "npfloat \<Rightarrow> npfloat" where
  "np_exp (Fin x) = fl (exp x)"
| "np_exp PInf = PInf"
| "np_exp NInf = Fin 0"
| "np_exp NaN = NaN"

text \<open>
  \<^verbatim>\<open>np.sum\<close> and \<^verbatim>\<open>np.dot\<close> of one-dimensional arrays, added up from the left.
  numpy may add in another order; with exact finite arithmetic the order shows only in
  sums of both signs that overflow on the way, and the sums of this program (of
  exponentials, and of products of scores and weights) have one sign.
\<close>

definition np_sum :: "npfloat list \<Rightarrow> npfloat" where
  "np_sum xs = foldl np_add (Fin 0) xs"

definition np_dot :: "npfloat list \<Rightarrow> npfloat list \<Rightarrow> npfloat" where
  "np_dot a b = np_sum (map (\<lambda>(x, y). np_mul x y) (zip a b))"

text \<open>
  \<^verbatim>\<open>np.min\<close> of the scores of one sentence: the reduction has no identity, an empty
  sequence raises \<^verbatim>\<open>ValueError\<close>.  \<^verbatim>\<open>np.mean\<close> is the sum divided by the number of
  elements; on an empty sequence that is \<open>0 / 0\<close>, nan.
\<close>

fun np_min :: "real list \<Rightarrow> error + real" where
  "np_min [] = Inl ValueError"
| "np_min (x # xs) = Inr (foldl min x xs)"

definition np_mean :: "real list \<Rightarrow> npfloat" where
  "np_mean scores = np_div (np_sum (map Fin scores)) (Fin (real (length scores)))"

text \<open>
  A list comprehension (or \<^verbatim>\<open>map\<close>) over a function that may raise: the first
  exception ends it.
\<close>

fun map_err :: "('a \<Rightarrow> error + 'b) \<Rightarrow> 'a list \<Rightarrow> error + 'b list" where
  "map_err f [] = Inr []"
| "map_err f (x # xs) =
     (case f x of
        Inl e \<Rightarrow> Inl e
      | Inr y \<Rightarrow> (case map_err f xs of Inl e \<Rightarrow> Inl e | Inr ys \<Rightarrow> Inr (y # ys)))"

subsection \<open>Sentence aggregation\<close>

text \<open>
  The two local functions of \<^verbatim>\<open>_softmin_sentence_score\<close>; the temperature they close
  over is their first argument.
  \<^verbatim>\<open>softmax(scores)\<close>: \<^verbatim>\<open>exp_scores = np.exp(scores / temperature)\<close>, then
  \<^verbatim>\<open>exp_scores / np.sum(exp_scores)\<close>.
  \<^verbatim>\<open>fun(scores)\<close>: \<^verbatim>\<open>np.dot(scores, softmax(1 - np.array(scores)))\<close>.
\<close>

definition softmax :: "npfloat \<Rightarrow> npfloat list \<Rightarrow> npfloat list" where
  "softmax temperature scores =
     (let exp_scores = map (\<lambda>x. np_exp (np_div x temperature)) scores
      in map (\<lambda>e. np_div e (np_sum exp_scores)) exp_scores)"

definition softmin_fun :: "npfloat \<Rightarrow> real list \<Rightarrow> npfloat" where
  "softmin_fun temperature scores =
     np_dot (map Fin scores) (softmax temperature (map (\<lambda>s. np_sub (Fin 1) (Fin s)) scores))"

text \<open>
  \<^verbatim>\<open>_softmin_sentence_score(token_scores, temperature=0.05)\<close>
\<close>

definition default_temperature :: npfloat where
  "default_temperature = Fin (5 / 100)"

definition softmin_sentence_score :: "real list list \<Rightarrow> npfloat \<Rightarrow> error + npfloat list" where
  "softmin_sentence_score token_scores temperature =
     (if temperature = Fin 0
      then map_err (\<lambda>scores. map_sum id Fin (np_min scores)) token_scores
      else if temperature = PInf
      then Inr (map np_mean token_scores)
      else Inr (map (softmin_fun temperature) token_scores))"

text \<open>
  The softmin policy in the words of the specification, over the real numbers:
  \<open>softmax(z)_i = exp(z_i) / sum_j exp(z_j)\<close>, \<open>w = softmax((1 - s) / t)\<close>, and the
  sentence score is the dot product \<open>sum(s_i * w_i)\<close>.
\<close>

definition softmax_spec :: "real list \<Rightarrow> real list" where
  "softmax_spec z = map (\<lambda>x. exp x / (\<Sum>y\<leftarrow>z. exp y)) z"

definition softmin_spec :: "real list \<Rightarrow> real \<Rightarrow> real" where
  "softmin_spec s t =
     (let w = softmax_spec (map (\<lambda>x. (1 - x) / t) s)
      in \<Sum>(x, y)\<leftarrow>zip s w. x * y)"

subsection \<open>Scoring a dataset\<close>

text \<open>
  A \<^verbatim>\<open>pandas.Series\<close> of token scores is the list of its entries, each under its
  index label: the position, or the token when \<^verbatim>\<open>tokens\<close> are given.
  \<^verbatim>\<open>pd.Series(scores, index=token)\<close> raises \<^verbatim>\<open>ValueError\<close> when the index and the
  values differ in length.
\<close>

datatype 'tok label = Position nat | Token 'tok

type_synonym 'tok series = "('tok label \<times> real) list"

definition pd_Series :: "real list \<Rightarrow> 'tok series" where
  "pd_Series scores = zip (map Position [0 ..< length scores]) scores"

definition pd_Series_index :: "real list \<Rightarrow> 'tok list \<Rightarrow> error + 'tok series" where
  "pd_Series_index scores token =
     (if length token = length scores then Inr (zip (map Token token) scores)
      else Inl ValueError)"

text \<open>
  Truth value of an optional list: \<^verbatim>\<open>None\<close> and \<^verbatim>\<open>[]\<close> are false.
\<close>

fun truthy :: "'a list option \<Rightarrow> bool" where
  "truthy None = False"
| "truthy (Some []) = False"
| "truthy (Some (x # xs)) = True"

text \<open>
  \<^verbatim>\<open>"\n".join(methods)\<close> and the message of the first \<^verbatim>\<open>assert\<close>.  A failed
  \<^verbatim>\<open>assert\<close> raises \<^verbatim>\<open>AssertionError\<close>; the interpreter is taken in its default
  mode, where assertions are executed.
\<close>

definition methods :: "string list" where
  "methods = [''min'', ''softmin'']"

fun join :: "string \<Rightarrow> string list \<Rightarrow> string" where
  "join sep [] = []"
| "join sep [x] = x"
| "join sep (x # y # ys) = x @ sep @ join sep (y # ys)"

definition select_message :: string where
  "select_message = ''Select from the following methods:'' @ [CHR 0x0A] @ join [CHR 0x0A] methods"

text \<open>
  \<^verbatim>\<open>get_label_quality_scores(labels, pred_probs, *, tokens=None,
  token_score_method="self_confidence", sentence_score_method="min",
  sentence_score_kwargs={})\<close>.
  The token scorer \<^verbatim>\<open>cleanlab.rank.get_label_quality_scores\<close> is imported from another
  module; it is the first argument here, a function of the flat labels, the flat
  probability rows and the method name that returns the token scores or the description
  of the exception it raised.  The keyword arguments are a dictionary.
\<close>

definition get_label_quality_scores ::
    "(int list \<Rightarrow> real list list \<Rightarrow> string \<Rightarrow> string + real list) \<Rightarrow>
     int list list \<Rightarrow> real list list list \<Rightarrow> 'tok list list option \<Rightarrow> string \<Rightarrow> string \<Rightarrow>
     (string \<rightharpoonup> npfloat) \<Rightarrow> error + (npfloat list \<times> 'tok series list)" where
  "get_label_quality_scores main_get_label_quality_scores labels pred_probs tokens
       token_score_method sentence_score_method sentence_score_kwargs =
     (if sentence_score_method \<notin> set methods then Inl (AssertionError select_message)
      else
        let labels_flatten = flatten labels;
            pred_probs_flatten = flatten pred_probs;
            sentence_length = map length labels
        in
          case main_get_label_quality_scores labels_flatten pred_probs_flatten
                 token_score_method of
            Inl e \<Rightarrow> Inl (ScorerError e)
          | Inr token_scores \<Rightarrow>
              (case nested_list token_scores sentence_length of
                 Inl e \<Rightarrow> Inl e
               | Inr scores_nl \<Rightarrow>
                   (case (if sentence_score_method = ''min''
                          then map_err (\<lambda>scores. map_sum id Fin (np_min scores)) scores_nl
                          else if sentence_score_method \<noteq> ''softmin''
                          then Inl (AssertionError [])
                          else softmin_sentence_score scores_nl
                                 (case sentence_score_kwargs ''temperature'' of
                                    None \<Rightarrow> Fin (5 / 100)
                                  | Some temperature \<Rightarrow> temperature)) of
                      Inl e \<Rightarrow> Inl e
                    | Inr sentence_scores \<Rightarrow>
                        (case (if truthy tokens
                               then map_err (\<lambda>(scores, token). pd_Series_index scores token)
                                      (zip scores_nl (case tokens of Some t \<Rightarrow> t | None \<Rightarrow> []))
                               else Inr (map pd_Series scores_nl)) of
                           Inl e \<Rightarrow> Inl e
                         | Inr token_info \<Rightarrow> Inr (sentence_scores, token_info)))))"

text \<open>
  Modelled from the spec: the Token Quality Scorer, \<^verbatim>\<open>cleanlab.rank.get_label_quality_scores\<close>,
  whose source is not part of this file.  Given the flat labels and the flat probability
  rows, of equal length, it returns one score per token in the same order; with the
  method \<^verbatim>\<open>"self_confidence"\<close> the score of a token is the probability predicted for
  its given label, as in the docstring example of \<^verbatim>\<open>get_label_quality_scores\<close>.  It is
  used for concrete runs only; the theorems about \<open>get_label_quality_scores\<close> hold for
  every scorer.
\<close>

definition self_confidence :: "int list \<Rightarrow> real list list \<Rightarrow> string \<Rightarrow> string + real list" where
  "self_confidence labels pred_probs method =
     (if method \<noteq> ''self_confidence'' then Inl ''method not modelled''
      else if length labels \<noteq> length pred_probs
      then Inl ''labels and pred_probs differ in length''
      else if list_ex (\<lambda>(l, p). l < 0 \<or> int (length p) \<le> l) (zip labels pred_probs)
      then Inl ''label out of range''
      else Inr (map (\<lambda>(l, p). p ! nat l) (zip labels pred_probs)))"

subsection \<open>Issue ranking\<close>

text \<open>
  Scores are Python floats.  In this part of the program they are only compared, and on
  floats other than nan the comparison is the order of the real numbers, so a score is a
  \<^typ>\<open>real\<close> here; nan scores are outside the model.

  Indexing a numpy array (or a list) with a non-negative index: out of range raises
  \<^verbatim>\<open>IndexError\<close>.
\<close>

definition np_index :: "'a list \<Rightarrow> nat \<Rightarrow> error + 'a" where
  "np_index xs i = (if i < length xs then Inr (xs ! i) else Inl IndexError)"

text \<open>
  \<^verbatim>\<open>np.argsort(sentence_scores)\<close>: the indices in ascending order of score.  numpy's
  default sort kind is not stable: it promises no order among the indices of equal
  scores.  That order is the first argument here: indices of equal scores stand in
  ascending order of \<open>tie_order\<close> (and of index where that is equal too).  Every
  ranking numpy may return is reached by some \<open>tie_order\<close> (lemma \<open>argsort_complete\<close>),
  and what is proved of the ranker is proved for every \<open>tie_order\<close>.
\<close>

definition argsort :: "(nat \<Rightarrow> nat) \<Rightarrow> real list \<Rightarrow> nat list" where
  "argsort tie_order sentence_scores =
     sort_key (\<lambda>i. sentence_scores ! i)
       (sort_key tie_order [0 ..< length sentence_scores])"

text \<open>
  The loop
  \<^verbatim>\<open>while sentence_scores[ranking[cutoff]] < threshold and cutoff < len(ranking): cutoff += 1\<close>
  started at \<open>cutoff\<close>; it returns the final \<open>cutoff\<close>.  The left operand of
  \<^verbatim>\<open>and\<close> is evaluated first: \<^verbatim>\<open>ranking[cutoff]\<close> is read before
  \<^verbatim>\<open>cutoff < len(ranking)\<close> is tested.
\<close>

function cutoff_loop :: "real list \<Rightarrow> nat list \<Rightarrow> real \<Rightarrow> nat \<Rightarrow> error + nat" where
  "cutoff_loop sentence_scores ranking threshold cutoff =
     (case np_index ranking cutoff of
        Inl e \<Rightarrow> Inl e
      | Inr r \<Rightarrow>
          (case np_index sentence_scores r of
             Inl e \<Rightarrow> Inl e
           | Inr score \<Rightarrow>
               if score < threshold \<and> cutoff < length ranking
               then cutoff_loop sentence_scores ranking threshold (cutoff + 1)
               else Inr cutoff))"
  by pat_completeness auto
termination
  by (relation "measure (\<lambda>(sentence_scores, ranking, threshold, cutoff). length ranking - cutoff)")
     auto

text \<open>
  The token branch: the triples \<^verbatim>\<open>(sentence_index, token_index, score)\<close> below the
  threshold, in the order of the two nested \<^verbatim>\<open>enumerate\<close> loops.
\<close>

definition issues_with_scores :: "real list list \<Rightarrow> real \<Rightarrow> (nat \<times> nat \<times> real) list" where
  "issues_with_scores token_scores threshold =
     concat (map (\<lambda>(sentence_index, scores).
                    map (\<lambda>(token_index, score). (sentence_index, token_index, score))
                        (filter (\<lambda>(token_index, score). score < threshold)
                                (enumerate 0 scores)))
                 (enumerate 0 token_scores))"

text \<open>
  The same scan with the sentence counter started at \<open>n\<close>, and the order in which the
  scan visits the triples: by sentence index, then by token index.  Both serve the proofs
  about the token branch.
\<close>

definition triples_from :: "nat \<Rightarrow> real list list \<Rightarrow> real \<Rightarrow> (nat \<times> nat \<times> real) list" where
  "triples_from n token_scores threshold =
     concat (map (\<lambda>(sentence_index, scores).
                    map (\<lambda>(token_index, score). (sentence_index, token_index, score))
                        (filter (\<lambda>(token_index, score). score < threshold)
                                (enumerate 0 scores)))
                 (enumerate n token_scores))"

definition scan_before :: "nat \<times> nat \<times> real \<Rightarrow> nat \<times> nat \<times> real \<Rightarrow> bool" where
  "scan_before a b = (fst a < fst b \<or> (fst a = fst b \<and> fst (snd a) < fst (snd b)))"

text \<open>
  The rest of the token branch: \<^verbatim>\<open>sorted(issues_with_scores, key=lambda x: x[2])\<close>,
  then the pairs \<^verbatim>\<open>(i, j)\<close> of the sorted triples.  Python's \<^verbatim>\<open>sorted\<close> is stable,
  as is \<^const>\<open>sort_key\<close>.
\<close>

definition token_issues :: "real list list \<Rightarrow> real \<Rightarrow> (nat \<times> nat) list" where
  "token_issues token_scores threshold =
     map (\<lambda>(i, j, _). (i, j))
       (sort_key (\<lambda>(i, j, score). score) (issues_with_scores token_scores threshold))"

text \<open>
  The sentence branch: the ranking, the loop from \<open>cutoff = 0\<close>, and
  \<^verbatim>\<open>ranking[:cutoff]\<close>.
\<close>

definition sentence_issues :: "(nat \<Rightarrow> nat) \<Rightarrow> real list \<Rightarrow> real \<Rightarrow> error + nat list" where
  "sentence_issues tie_order sentence_scores threshold =
     (let ranking = argsort tie_order sentence_scores
      in (case cutoff_loop sentence_scores ranking threshold 0 of
            Inl e \<Rightarrow> Inl e
          | Inr cutoff \<Rightarrow> Inr (take cutoff ranking)))"

text \<open>
  The two result shapes: a list of \<^verbatim>\<open>(i, j)\<close> pairs, or an array of sentence indices.
\<close>

datatype issues = TokenIssues "(nat \<times> nat) list" | SentenceIssues "nat list"

text \<open>
  \<^verbatim>\<open>issues_from_scores(sentence_scores, token_scores=None, threshold=0.1)\<close>.
  \<^verbatim>\<open>if token_scores:\<close> holds for a list that is not empty; \<^verbatim>\<open>None\<close> and
  \<^verbatim>\<open>[]\<close> take the sentence branch.  The first argument is the order numpy's
  \<^verbatim>\<open>argsort\<close> gives to equal sentence scores; the token branch does not read it.
\<close>

fun issues_from_scores ::
    "(nat \<Rightarrow> nat) \<Rightarrow> real list \<Rightarrow> real list list option \<Rightarrow> real \<Rightarrow> error + issues" where
  "issues_from_scores tie_order sentence_scores (Some (scores # token_scores)) threshold =
     Inr (TokenIssues (token_issues (scores # token_scores) threshold))"
| "issues_from_scores tie_order sentence_scores token_scores threshold =
     (case sentence_issues tie_order sentence_scores threshold of
        Inl e \<Rightarrow> Inl e
      | Inr issues \<Rightarrow> Inr (SentenceIssues issues))"

section \<open>Properties\<close>

subsection \<open>Flatten and nest\<close>

lemma next_n_append: "next_n (length sentence) (sentence @ i) = Inr (sentence, i)"
  by (induction sentence) simp_all

lemma next_n_eq:
  "next_n n i = (if n \<le> length i then Inr (take n i, drop n i) else Inl StopIteration)"
proof (induction n i rule: next_n.induct)
  case (1 i) show ?case by simp
next
  case (2 n) show ?case by simp
next
  case (3 n x i) then show ?case by simp
qed

lemma nested_list_from_short:
  "length i < sum_list ls \<Longrightarrow> nested_list_from i ls = Inl StopIteration"
proof (induction ls arbitrary: i)
  case Nil then show ?case by simp
next
  case (Cons l ls)
  show ?case
  proof (cases "l \<le> length i")
    case True
    with Cons.prems have "length (drop l i) < sum_list ls" by simp
    then have "nested_list_from (drop l i) ls = Inl StopIteration" by (rule Cons.IH)
    with True show ?thesis by (simp add: next_n_eq)
  next
    case False then show ?thesis by (simp add: next_n_eq)
  qed
qed

lemma nested_list_from_enough:
  "sum_list ls \<le> length i \<Longrightarrow>
   \<exists>r. nested_list_from i ls = Inr r \<and> map length r = ls \<and> flatten r = take (sum_list ls) i"
proof (induction ls arbitrary: i)
  case Nil then show ?case by simp
next
  case (Cons l ls)
  from Cons.prems have l: "l \<le> length i" and rest: "sum_list ls \<le> length (drop l i)"
    by simp_all
  from Cons.IH [OF rest] obtain r where r: "nested_list_from (drop l i) ls = Inr r"
    "map length r = ls" "flatten r = take (sum_list ls) (drop l i)" by blast
  have "take l i @ take (sum_list ls) (drop l i) = take (l + sum_list ls) i"
    by (simp add: take_add)
  with l r show ?case by (simp add: next_n_eq)
qed

lemma nested_list_from_flatten:
  "nested_list_from (flatten x @ rest) (map length x) = Inr x"
  by (induction x) (simp_all add: next_n_append)

text \<open>
  Claim C8.  Re-nesting the flattened sequence by the sentence lengths of the original
  gives the original back, sentence by sentence and token by token.  It holds for every
  nested sequence, sentences of length zero included.
\<close>

theorem nested_list_flatten_roundtrip:
  "nested_list (flatten x) (map length x) = Inr x"
  using nested_list_from_flatten [of x "[]"] by (simp add: nested_list_def)

text \<open>
  Claim C2, as the specification states it, asks for an error whenever the lengths do
  not add up to the length of the flat sequence.  The program raises nothing when the
  flat sequence is the longer one: three elements nested by the lengths \<open>[1, 1]\<close> give
  two sentences and the third element is dropped.
\<close>

theorem nested_list_truncates_counterexample:
  "sum_list [1, 1] \<noteq> length [1 :: nat, 2, 3] \<and>
   nested_list [1 :: nat, 2, 3] [1, 1] = Inr [[1], [2]]"
  by (simp add: nested_list_def)

text \<open>
  Claim C2, amended.  Re-nesting fails, with \<^verbatim>\<open>StopIteration\<close>, exactly when the
  sentence lengths ask for more elements than the flat sequence has.  Otherwise it
  succeeds, the result has exactly the sentence lengths asked for, and it holds the first
  \<open>sum_list sentence_length\<close> elements of the flat sequence in their order; what
  follows them in a longer flat sequence is left out.
\<close>

theorem nested_list_length_mismatch:
  "(length x < sum_list sentence_length \<longrightarrow>
      nested_list x sentence_length = Inl StopIteration) \<and>
   (sum_list sentence_length \<le> length x \<longrightarrow>
      (\<exists>r. nested_list x sentence_length = Inr r \<and> map length r = sentence_length \<and>
           flatten r = take (sum_list sentence_length) x))"
  by (simp add: nested_list_def nested_list_from_short nested_list_from_enough)

theorem nested_list_length_mismatch_witness:
  "length [1 :: nat] < sum_list [1, 1] \<and> nested_list [1 :: nat] [1, 1] = Inl StopIteration \<and>
   sum_list [2, 1] \<le> length [1 :: nat, 2, 3, 4] \<and>
   (\<exists>r. nested_list [1 :: nat, 2, 3, 4] [2, 1] = Inr r \<and> map length r = [2, 1] \<and>
        flatten r = take (sum_list [2, 1]) [1, 2, 3, 4])"
  using nested_list_length_mismatch [of "[1 :: nat]" "[1, 1]"]
    nested_list_length_mismatch [of "[1 :: nat, 2, 3, 4]" "[2, 1]"]
  by simp

subsection \<open>The range of the doubles\<close>

lemma DBL_MAX_ge_pow2: "(2 :: real) ^ 1023 \<le> DBL_MAX"
proof -
  have "(2 :: real) ^ 1024 = 2 * 2 ^ 1023"
    using power_Suc [of "2 :: real" 1023] by simp
  moreover have "(2 :: real) ^ 971 \<le> 2 ^ 1023"
    by (rule power_increasing) simp_all
  ultimately show ?thesis unfolding DBL_MAX_def by linarith
qed

lemma pow2_le_DBL_MAX: "n \<le> 1023 \<Longrightarrow> (2 :: real) ^ n \<le> DBL_MAX"
proof -
  assume "n \<le> 1023"
  then have "(2 :: real) ^ n \<le> 2 ^ 1023" by (intro power_increasing) simp_all
  with DBL_MAX_ge_pow2 show ?thesis by linarith
qed

lemma one_le_DBL_MAX: "1 \<le> DBL_MAX"
  using pow2_le_DBL_MAX [of 0] by simp

lemma DBL_MAX_less_pow2: "DBL_MAX < 2 ^ 1024"
proof -
  have "(0 :: real) < 2 ^ 971" by (rule zero_less_power) simp
  then show ?thesis unfolding DBL_MAX_def by linarith
qed

lemma fl_nonneg: "0 \<le> r \<Longrightarrow> r \<le> DBL_MAX \<Longrightarrow> fl r = Fin r"
  using one_le_DBL_MAX by (simp add: fl_def)

subsection \<open>Sums, means and minima without overflow\<close>

lemma foldl_np_add_Fin:
  "0 \<le> a \<Longrightarrow> (\<And>x. x \<in> set xs \<Longrightarrow> 0 \<le> x) \<Longrightarrow> a + sum_list xs \<le> DBL_MAX \<Longrightarrow>
   foldl np_add (Fin a) (map Fin xs) = Fin (a + sum_list xs)"
proof (induction xs arbitrary: a)
  case Nil show ?case by simp
next
  case (Cons x xs)
  have x: "0 \<le> x" using Cons.prems(2) by simp
  have rest: "0 \<le> sum_list xs" using Cons.prems(2) by (intro sum_list_nonneg) simp
  have "fl (a + x) = Fin (a + x)"
    using Cons.prems(1,3) x rest by (intro fl_nonneg) simp_all
  moreover have "foldl np_add (Fin (a + x)) (map Fin xs) = Fin (a + x + sum_list xs)"
    using Cons.prems x by (intro Cons.IH) (simp_all add: add.assoc)
  ultimately show ?case by (simp add: add.assoc)
qed

lemma np_sum_Fin:
  "(\<And>x. x \<in> set xs \<Longrightarrow> 0 \<le> x) \<Longrightarrow> sum_list xs \<le> DBL_MAX \<Longrightarrow>
   np_sum (map Fin xs) = Fin (sum_list xs)"
  using foldl_np_add_Fin [of 0 xs] by (simp add: np_sum_def)

lemma sum_list_le_length:
  fixes xs :: "real list"
  shows "(\<And>x. x \<in> set xs \<Longrightarrow> x \<le> c) \<Longrightarrow> sum_list xs \<le> real (length xs) * c"
proof (induction xs)
  case Nil show ?case by simp
next
  case (Cons x xs)
  have "x \<le> c" using Cons.prems by simp
  moreover have "sum_list xs \<le> real (length xs) * c" using Cons.prems by (intro Cons.IH) simp
  ultimately show ?case by (simp add: algebra_simps)
qed

lemma np_mean_eq:
  assumes "scores \<noteq> []" and "\<And>x. x \<in> set scores \<Longrightarrow> 0 \<le> x \<and> x \<le> 1"
    and "real (length scores) \<le> DBL_MAX"
  shows "np_mean scores = Fin (sum_list scores / real (length scores))"
proof -
  have n: "0 < real (length scores)" using assms(1) by simp
  have nonneg: "0 \<le> sum_list scores" using assms(2) by (intro sum_list_nonneg) simp
  have le: "sum_list scores \<le> real (length scores)"
    using sum_list_le_length [of scores 1] assms(2) by simp
  have "np_sum (map Fin scores) = Fin (sum_list scores)"
    using assms(2,3) le by (intro np_sum_Fin) simp_all
  moreover have "fl (sum_list scores / real (length scores)) =
      Fin (sum_list scores / real (length scores))"
  proof (rule fl_nonneg)
    show "0 \<le> sum_list scores / real (length scores)" using nonneg n by simp
    have "sum_list scores / real (length scores) \<le> 1" using le n by simp
    then show "sum_list scores / real (length scores) \<le> DBL_MAX"
      using one_le_DBL_MAX by linarith
  qed
  ultimately show ?thesis using n by (simp add: np_mean_def)
qed

lemma foldl_min_Min:
  fixes x :: real
  shows "foldl min x xs = Min (set (x # xs))"
proof -
  have "(\<lambda>a s :: real. min s a) = min" by (intro ext) (simp add: min.commute)
  then show ?thesis unfolding Min.set_eq_fold foldl_conv_fold by simp
qed

lemma np_min_eq: "scores \<noteq> [] \<Longrightarrow> np_min scores = Inr (Min (set scores))"
  by (cases scores) (simp_all add: foldl_min_Min del: set_simps)

lemma map_err_Inr: "(\<And>x. x \<in> set xs \<Longrightarrow> f x = Inr (g x)) \<Longrightarrow> map_err f xs = Inr (map g xs)"
  by (induction xs) simp_all

lemma np_dot_Fin:
  assumes "\<And>x. x \<in> set xs \<Longrightarrow> 0 \<le> f x \<and> 0 \<le> g x"
    and "(\<Sum>x\<leftarrow>xs. f x * g x) \<le> DBL_MAX"
  shows "np_dot (map (\<lambda>x. Fin (f x)) xs) (map (\<lambda>x. Fin (g x)) xs) = Fin (\<Sum>x\<leftarrow>xs. f x * g x)"
proof -
  have nonneg: "0 \<le> y" if "y \<in> set (map (\<lambda>x. f x * g x) xs)" for y
    using that assms(1) by auto
  have "np_mul (Fin (f x)) (Fin (g x)) = Fin (f x * g x)" if "x \<in> set xs" for x
  proof -
    have "f x * g x \<in> set (map (\<lambda>x. f x * g x) xs)" using that by simp
    then have "f x * g x \<le> (\<Sum>x\<leftarrow>xs. f x * g x)"
      using nonneg by (intro member_le_sum_list) auto
    with assms(2) have "f x * g x \<le> DBL_MAX" by linarith
    moreover have "0 \<le> f x * g x" using assms(1) that by simp
    ultimately show ?thesis by (simp add: fl_nonneg)
  qed
  then have "map (\<lambda>(x, y). np_mul x y) (zip (map (\<lambda>x. Fin (f x)) xs) (map (\<lambda>x. Fin (g x)) xs))
      = map Fin (map (\<lambda>x. f x * g x) xs)"
    by (simp add: zip_map_map zip_same_conv_map)
  moreover have "np_sum (map Fin (map (\<lambda>x. f x * g x) xs)) = Fin (\<Sum>x\<leftarrow>xs. f x * g x)"
    using nonneg assms(2) by (intro np_sum_Fin) simp_all
  ultimately show ?thesis by (simp add: np_dot_def)
qed

text \<open>
  The softmax of scores between 0 and 1 at a positive temperature, when the sum of the
  exponentials stays within the range: every operation is finite.
\<close>

lemma softmax_Fin:
  assumes "\<And>u. u \<in> set us \<Longrightarrow> 0 \<le> u \<and> u \<le> 1" and "0 < t"
    and "real (length us) * exp (1 / t) \<le> DBL_MAX"
  shows "softmax (Fin t) (map Fin us) =
         map (\<lambda>u. Fin (exp (u / t) / (\<Sum>v\<leftarrow>us. exp (v / t)))) us"
proof (cases "us = []")
  case True then show ?thesis by (simp add: softmax_def)
next
  case False
  then have n: "1 \<le> real (length us)" by (cases us) simp_all
  have "exp (1 / t) \<le> real (length us) * exp (1 / t)" using n by simp
  with assms(3) have top: "exp (1 / t) \<le> DBL_MAX" by linarith
  have quot: "0 \<le> u / t \<and> u / t \<le> 1 / t" if "u \<in> set us" for u
    using assms(1) [OF that] assms(2) by (simp add: divide_right_mono)
  have e_le: "exp (u / t) \<le> exp (1 / t)" if "u \<in> set us" for u
    using quot [OF that] by simp
  have step1: "np_exp (np_div (Fin u) (Fin t)) = Fin (exp (u / t))" if "u \<in> set us" for u
  proof -
    have "u / t \<le> exp (u / t)" using exp_ge_add_one_self [of "u / t"] by linarith
    with e_le [OF that] top have "u / t \<le> DBL_MAX" by linarith
    with quot [OF that] have "fl (u / t) = Fin (u / t)" by (simp add: fl_nonneg)
    moreover have "exp (u / t) \<le> DBL_MAX" using e_le [OF that] top by linarith
    then have "fl (exp (u / t)) = Fin (exp (u / t))"
      by (intro fl_nonneg) simp_all
    ultimately show ?thesis using assms(2) by simp
  qed
  let ?es = "map (\<lambda>u. exp (u / t)) us"
  let ?S = "sum_list ?es"
  have exps: "map (\<lambda>x. np_exp (np_div x (Fin t))) (map Fin us) = map Fin ?es"
    using step1 by simp
  have "?S \<le> real (length us) * exp (1 / t)"
    using sum_list_le_length [of ?es "exp (1 / t)"] e_le by auto
  with assms(3) have S_le: "?S \<le> DBL_MAX" by linarith
  have sum: "np_sum (map Fin ?es) = Fin ?S"
    using S_le by (intro np_sum_Fin) auto
  have S_pos: "0 < ?S"
  proof -
    obtain u where "u \<in> set us" using False by (cases us) auto
    then have "exp (u / t) \<in> (\<lambda>u. exp (u / t)) ` set us" by (rule imageI)
    then have "exp (u / t) \<in> set ?es" by (simp only: set_map)
    then have "exp (u / t) \<le> ?S" by (intro member_le_sum_list) auto
    then show ?thesis by (smt (verit) exp_gt_zero)
  qed
  have step2: "np_div (Fin (exp (u / t))) (Fin ?S) = Fin (exp (u / t) / ?S)"
    if "u \<in> set us" for u
  proof -
    have "exp (u / t) \<in> (\<lambda>u. exp (u / t)) ` set us" using that by (rule imageI)
    then have "exp (u / t) \<in> set ?es" by (simp only: set_map)
    then have "exp (u / t) \<le> ?S" by (intro member_le_sum_list) auto
    then have "exp (u / t) / ?S \<le> 1" using S_pos by simp
    then have "exp (u / t) / ?S \<le> DBL_MAX" using one_le_DBL_MAX by linarith
    moreover have "0 \<le> exp (u / t) / ?S" using S_pos by simp
    ultimately show ?thesis using S_pos by (simp add: fl_nonneg)
  qed
  show ?thesis
    unfolding softmax_def Let_def exps sum using step2 by simp
qed

lemma sum_list_divide_const:
  fixes f :: "'a \<Rightarrow> real"
  shows "(\<Sum>x\<leftarrow>xs. f x / c) = (\<Sum>x\<leftarrow>xs. f x) / c"
  by (induction xs) (simp_all add: add_divide_distrib)

text \<open>
  Under the same condition the softmin score of a sentence is the weighted mean of its
  token scores with the weights \<open>exp ((1 - x) / t)\<close>.
\<close>

lemma softmin_fun_exact:
  assumes "\<And>x. x \<in> set s \<Longrightarrow> 0 \<le> x \<and> x \<le> 1" and "0 < t"
    and "real (length s) * exp (1 / t) \<le> DBL_MAX" and "s \<noteq> []"
  shows "softmin_fun (Fin t) s =
         Fin ((\<Sum>x\<leftarrow>s. x * exp ((1 - x) / t)) / (\<Sum>x\<leftarrow>s. exp ((1 - x) / t)))"
proof -
  let ?S = "\<Sum>x\<leftarrow>s. exp ((1 - x) / t)"
  have compl: "np_sub (Fin 1) (Fin x) = Fin (1 - x)" if "x \<in> set s" for x
  proof -
    have "0 \<le> 1 - x" "1 - x \<le> DBL_MAX"
      using assms(1) [OF that] one_le_DBL_MAX by linarith+
    then have "fl (1 - x) = Fin (1 - x)" by (rule fl_nonneg)
    then show ?thesis by (simp add: np_sub_def)
  qed
  then have m: "map (\<lambda>x. np_sub (Fin 1) (Fin x)) s = map Fin (map (\<lambda>x. 1 - x) s)" by simp
  have "softmax (Fin t) (map Fin (map (\<lambda>x. 1 - x) s)) =
      map (\<lambda>u. Fin (exp (u / t) / (\<Sum>v\<leftarrow>map (\<lambda>x. 1 - x) s. exp (v / t)))) (map (\<lambda>x. 1 - x) s)"
    using assms(1,2,3) by (intro softmax_Fin) auto
  then have weights: "softmax (Fin t) (map (\<lambda>x. np_sub (Fin 1) (Fin x)) s) =
      map (\<lambda>x. Fin (exp ((1 - x) / t) / ?S)) s"
    unfolding m by (simp add: comp_def)
  have S_pos: "0 < ?S"
  proof -
    obtain x where x: "x \<in> set s" using assms(4) by (cases s) auto
    then have "exp ((1 - x) / t) \<in> (\<lambda>x. exp ((1 - x) / t)) ` set s" by (rule imageI)
    then have "exp ((1 - x) / t) \<in> set (map (\<lambda>x. exp ((1 - x) / t)) s)"
      by (simp only: set_map)
    then have "exp ((1 - x) / t) \<le> ?S" by (intro member_le_sum_list) auto
    then show ?thesis by (smt (verit) exp_gt_zero)
  qed
  have "(\<Sum>x\<leftarrow>s. x * (exp ((1 - x) / t) / ?S)) \<le> (\<Sum>x\<leftarrow>s. exp ((1 - x) / t) / ?S)"
  proof (rule sum_list_mono)
    fix x assume "x \<in> set s"
    then have "x \<le> 1" using assms(1) by simp
    moreover have "0 \<le> exp ((1 - x) / t) / ?S" using S_pos by simp
    ultimately show "x * (exp ((1 - x) / t) / ?S) \<le> exp ((1 - x) / t) / ?S"
      using mult_right_mono [of x 1 "exp ((1 - x) / t) / ?S"] by simp
  qed
  also have "\<dots> = 1" using S_pos by (simp add: sum_list_divide_const)
  finally have "(\<Sum>x\<leftarrow>s. x * (exp ((1 - x) / t) / ?S)) \<le> DBL_MAX"
    using one_le_DBL_MAX by linarith
  moreover have "0 \<le> x \<and> 0 \<le> exp ((1 - x) / t) / ?S" if "x \<in> set s" for x
    using assms(1) [OF that] S_pos by simp
  ultimately have "np_dot (map (\<lambda>x. Fin x) s) (map (\<lambda>x. Fin (exp ((1 - x) / t) / ?S)) s) =
      Fin (\<Sum>x\<leftarrow>s. x * (exp ((1 - x) / t) / ?S))"
    by (intro np_dot_Fin) simp_all
  moreover have "(\<Sum>x\<leftarrow>s. x * (exp ((1 - x) / t) / ?S)) = (\<Sum>x\<leftarrow>s. x * exp ((1 - x) / t)) / ?S"
    using sum_list_divide_const [of "\<lambda>x. x * exp ((1 - x) / t)" ?S s] by simp
  ultimately show ?thesis
    unfolding softmin_fun_def weights by simp
qed

lemma weighted_mean_bounds:
  fixes s :: "real list" and w :: "real \<Rightarrow> real"
  assumes "s \<noteq> []" and "\<And>x. x \<in> set s \<Longrightarrow> 0 < w x"
  shows "Min (set s) \<le> (\<Sum>x\<leftarrow>s. x * w x) / (\<Sum>x\<leftarrow>s. w x)"
    and "(\<Sum>x\<leftarrow>s. x * w x) / (\<Sum>x\<leftarrow>s. w x) \<le> Max (set s)"
proof -
  let ?W = "\<Sum>x\<leftarrow>s. w x"
  obtain y where y: "y \<in> set s" using assms(1) by (cases s) auto
  then have "w y \<in> w ` set s" by (rule imageI)
  then have "w y \<in> set (map w s)" by (simp only: set_map)
  then have "w y \<le> ?W" using assms(2) by (intro member_le_sum_list) (auto intro: less_imp_le)
  with assms(2) [OF y] have W: "0 < ?W" by linarith
  have "(\<Sum>x\<leftarrow>s. Min (set s) * w x) \<le> (\<Sum>x\<leftarrow>s. x * w x)"
    by (rule sum_list_mono) (use assms(2) in \<open>simp add: mult_right_mono less_imp_le\<close>)
  then have "Min (set s) * ?W \<le> (\<Sum>x\<leftarrow>s. x * w x)" by (simp add: sum_list_const_mult)
  then show "Min (set s) \<le> (\<Sum>x\<leftarrow>s. x * w x) / ?W" using W by (simp add: pos_le_divide_eq)
  have "(\<Sum>x\<leftarrow>s. x * w x) \<le> (\<Sum>x\<leftarrow>s. Max (set s) * w x)"
    by (rule sum_list_mono) (use assms(2) in \<open>simp add: mult_right_mono less_imp_le\<close>)
  then have "(\<Sum>x\<leftarrow>s. x * w x) \<le> Max (set s) * ?W" by (simp add: sum_list_const_mult)
  then show "(\<Sum>x\<leftarrow>s. x * w x) / ?W \<le> Max (set s)" using W by (simp add: pos_divide_le_eq)
qed

text \<open>
  The softmax of the specification is the mathematical one: shifting every argument by
  the same amount leaves it unchanged.  The softmin score of the specification is the
  mean of the token scores weighted by \<open>exp ((1 - x) / t)\<close>, and lies between the least
  and the greatest token score.
\<close>

lemma softmax_spec_shift: "softmax_spec (map (\<lambda>x. x - c) z) = softmax_spec z"
proof -
  have "(\<Sum>y\<leftarrow>z. exp (y - c)) = (\<Sum>y\<leftarrow>z. exp y) / exp c"
    by (simp add: exp_diff sum_list_divide_const)
  then show ?thesis
    by (simp add: softmax_spec_def comp_def exp_diff)
qed

lemma softmin_spec_eq:
  "softmin_spec s t = (\<Sum>x\<leftarrow>s. x * exp ((1 - x) / t)) / (\<Sum>x\<leftarrow>s. exp ((1 - x) / t))"
proof -
  let ?S = "\<Sum>x\<leftarrow>s. exp ((1 - x) / t)"
  have "softmin_spec s t = (\<Sum>x\<leftarrow>s. x * exp ((1 - x) / t) / ?S)"
    by (simp add: softmin_spec_def softmax_spec_def zip_map2 zip_same_conv_map comp_def)
  also have "\<dots> = (\<Sum>x\<leftarrow>s. x * exp ((1 - x) / t)) / ?S"
    by (rule sum_list_divide_const)
  finally show ?thesis .
qed

lemma softmin_spec_bounds:
  assumes "s \<noteq> []"
  shows "Min (set s) \<le> softmin_spec s t" and "softmin_spec s t \<le> Max (set s)"
  using weighted_mean_bounds [of s "\<lambda>x. exp ((1 - x) / t)"] assms
  by (simp_all add: softmin_spec_eq)

text \<open>
  Where nothing overflows the code computes the softmin score of the specification (in
  exact arithmetic), for every sentence, and so the score lies between the least and the
  greatest token score; so it does for the first sentence of the docstring at the
  default temperature (lemma \<open>softmin_example_bounds\<close> below).
\<close>

lemma softmin_fun_in_range:
  assumes "\<And>x. x \<in> set s \<Longrightarrow> 0 \<le> x \<and> x \<le> 1" and "0 < t"
    and "real (length s) * exp (1 / t) \<le> DBL_MAX" and "s \<noteq> []"
  shows "softmin_fun (Fin t) s = Fin (softmin_spec s t)"
  using softmin_fun_exact [OF assms] by (simp only: softmin_spec_eq)

lemma softmin_sentence_score_in_range:
  assumes "\<And>s x. s \<in> set token_scores \<Longrightarrow> x \<in> set s \<Longrightarrow> 0 \<le> x \<and> x \<le> 1"
    and "0 < t"
    and "\<And>s. s \<in> set token_scores \<Longrightarrow> s \<noteq> [] \<and> real (length s) * exp (1 / t) \<le> DBL_MAX"
  shows "softmin_sentence_score token_scores (Fin t) =
         Inr (map (\<lambda>s. Fin (softmin_spec s t)) token_scores)"
proof -
  have "softmin_fun (Fin t) s = Fin (softmin_spec s t)" if "s \<in> set token_scores" for s
    using assms(1) [OF that] assms(2) assms(3) [OF that] by (intro softmin_fun_in_range) auto
  with assms(2) show ?thesis by (simp add: softmin_sentence_score_def)
qed

lemma softmin_fun_bounds:
  assumes "\<And>x. x \<in> set s \<Longrightarrow> 0 \<le> x \<and> x \<le> 1" and "0 < t"
    and "real (length s) * exp (1 / t) \<le> DBL_MAX" and "s \<noteq> []"
  shows "\<exists>r. softmin_fun (Fin t) s = Fin r \<and> Min (set s) \<le> r \<and> r \<le> Max (set s)"
  using softmin_fun_exact [OF assms] weighted_mean_bounds [of s "\<lambda>x. exp ((1 - x) / t)"] assms(4)
  by simp

subsection \<open>Bounds on the exponential\<close>

lemma exp_1_bounds: "27182 / 10000 < exp (1 :: real)" "exp (1 :: real) < 27184 / 10000"
proof -
  obtain t :: real where t: "\<bar>t\<bar> \<le> \<bar>1\<bar>"
    and e: "exp (1 :: real) = (\<Sum>m<8. 1 ^ m / fact m) + exp t / fact 8 * 1 ^ 8"
    using Maclaurin_exp_le [of 1 8] by blast
  have s: "(\<Sum>m<8. (1 :: real) ^ m / fact m) = 685 / 252"
    by (simp add: eval_nat_numeral)
  have f: "fact 8 = (40320 :: real)" by (simp add: eval_nat_numeral)
  have "t \<le> 1" using t by simp
  then have "exp t \<le> exp 1" by simp
  with exp_le have up: "exp t \<le> 3" by linarith
  have lo: "0 < exp t" by simp
  from e have "exp 1 = 685 / 252 + exp t / 40320" unfolding s f by simp
  with up lo show "27182 / 10000 < exp (1 :: real)" "exp (1 :: real) < 27184 / 10000"
    by linarith+
qed

lemma exp_6_bounds: "399 < exp (6 :: real)" "exp (6 :: real) < 404"
proof -
  have e6: "exp (6 :: real) = exp 1 ^ 6" using exp_of_nat_mult [of 6 "1 :: real"] by simp
  have "(27182 / 10000 :: real) ^ 6 \<le> exp 1 ^ 6"
    by (rule power_mono) (use exp_1_bounds in simp_all)
  moreover have "(399 :: real) < (27182 / 10000) ^ 6" by (simp add: power_divide)
  ultimately show "399 < exp (6 :: real)" unfolding e6 by linarith
  have "exp (1 :: real) ^ 6 \<le> (27184 / 10000) ^ 6"
    by (rule power_mono) (use exp_1_bounds in simp_all)
  moreover have "(27184 / 10000 :: real) ^ 6 < 404" by (simp add: power_divide)
  ultimately show "exp (6 :: real) < 404" unfolding e6 by linarith
qed

lemma exp_16_bounds: "8839780 < exp (16 :: real)" "exp (16 :: real) < 8938540"
proof -
  have e16: "exp (16 :: real) = exp 1 ^ 16" using exp_of_nat_mult [of 16 "1 :: real"] by simp
  have "(27182 / 10000 :: real) ^ 16 \<le> exp 1 ^ 16"
    by (rule power_mono) (use exp_1_bounds in simp_all)
  moreover have "(8839780 :: real) < (27182 / 10000) ^ 16" by (simp add: power_divide)
  ultimately show "8839780 < exp (16 :: real)" unfolding e16 by linarith
  have "exp (1 :: real) ^ 16 \<le> (27184 / 10000) ^ 16"
    by (rule power_mono) (use exp_1_bounds in simp_all)
  moreover have "(27184 / 10000 :: real) ^ 16 < 8938540" by (simp add: power_divide)
  ultimately show "exp (16 :: real) < 8938540" unfolding e16 by linarith
qed

lemma exp_20_in_range: "3 * exp (20 :: real) \<le> DBL_MAX"
proof -
  have "exp (20 :: real) = exp 1 ^ 20" using exp_of_nat_mult [of 20 "1 :: real"] by simp
  also have "\<dots> \<le> 3 ^ 20" by (rule power_mono [OF exp_le]) simp
  also have "\<dots> \<le> 2 ^ 32" by simp
  finally have "3 * exp (20 :: real) \<le> 2 ^ 34" by simp
  with pow2_le_DBL_MAX [of 34] show ?thesis by simp
qed

lemma exp_1000_overflow: "DBL_MAX < exp 1000"
proof -
  have "(2 :: real) \<le> exp (125 / 128)"
    using exp_lower_Taylor_quadratic [of "125 / 128 :: real"] by (simp add: power2_eq_square)
  then have "(2 :: real) ^ 1024 \<le> exp (125 / 128) ^ 1024" by (intro power_mono) simp_all
  moreover have "exp (1000 :: real) = exp (125 / 128) ^ 1024"
    using exp_of_nat_mult [of 1024 "125 / 128 :: real"] by simp
  ultimately show ?thesis using DBL_MAX_less_pow2 by linarith
qed

lemma exp_500_in_range: "exp 500 \<le> DBL_MAX"
proof -
  have "exp (500 :: real) = exp (1 / 2) ^ 1000"
    using exp_of_nat_mult [of 1000 "1 / 2 :: real"] by simp
  moreover have "exp (1 / 2 :: real) ^ 1000 \<le> 2 ^ 1000"
    by (rule power_mono [OF exp_half_le2]) simp
  ultimately show ?thesis using pow2_le_DBL_MAX [of 1000] by simp
qed

subsection \<open>The docstring example of the softmin score\<close>

lemma default_temperature_in_range:
  "n \<le> 3 \<Longrightarrow> real n * exp (1 / (5 / 100)) \<le> DBL_MAX"
proof -
  assume "n \<le> 3"
  then have "real n \<le> 3" by simp
  then have "real n * exp 20 \<le> 3 * exp 20" by (intro mult_right_mono) simp_all
  with exp_20_in_range have "real n * exp 20 \<le> DBL_MAX" by linarith
  then show ?thesis by simp
qed

lemma softmin_example_1:
  "\<exists>x. softmin_fun (Fin (5 / 100)) [9 / 10, 6 / 10] = Fin x \<and>
       60074 / 100000 < x \<and> x < 60075 / 100000"
proof -
  have range: "real (length [9 / 10, 6 / 10 :: real]) * exp (1 / (5 / 100)) \<le> DBL_MAX"
    by (rule default_temperature_in_range) simp
  have "softmin_fun (Fin (5 / 100)) [9 / 10, 6 / 10] =
        Fin ((\<Sum>x\<leftarrow>[9 / 10, 6 / 10]. x * exp ((1 - x) / (5 / 100))) /
             (\<Sum>x\<leftarrow>[9 / 10, 6 / 10]. exp ((1 - x) / (5 / 100))))"
    by (rule softmin_fun_exact [OF _ _ range]) auto
  then have v: "softmin_fun (Fin (5 / 100)) [9 / 10, 6 / 10] =
        Fin ((9 / 10 * exp 2 + 6 / 10 * exp 8) / (exp 2 + exp 8))"
    by simp
  have e8: "exp (8 :: real) = exp 6 * exp 2" by (simp flip: exp_add)
  have a: "0 < exp (2 :: real)" by simp
  have "(9 / 10 * exp 2 + 6 / 10 * exp 8) / (exp 2 + exp (8 :: real)) =
        ((9 / 10 + 6 / 10 * exp 6) * exp 2) / ((1 + exp 6) * exp 2)"
    unfolding e8 by (simp add: algebra_simps)
  also have "\<dots> = (9 / 10 + 6 / 10 * exp 6) / (1 + exp (6 :: real))"
    using a by simp
  finally have q: "(9 / 10 * exp 2 + 6 / 10 * exp 8) / (exp 2 + exp (8 :: real)) =
        (9 / 10 + 6 / 10 * exp 6) / (1 + exp (6 :: real))" .
  have pos: "0 < 1 + exp (6 :: real)" by (simp add: add_pos_pos)
  have "60074 / 100000 < (9 / 10 + 6 / 10 * exp 6) / (1 + exp (6 :: real))"
    using exp_6_bounds pos by (simp add: pos_less_divide_eq)
  moreover have "(9 / 10 + 6 / 10 * exp 6) / (1 + exp (6 :: real)) < 60075 / 100000"
    using exp_6_bounds pos by (simp add: pos_divide_less_eq)
  ultimately show ?thesis unfolding v q by blast
qed

lemma softmin_example_2:
  "\<exists>y. softmin_fun (Fin (5 / 100)) [0, 8 / 10, 8 / 10] = Fin y \<and>
       179 / 10 ^ 9 < y \<and> y < 181 / 10 ^ 9"
proof -
  have range: "real (length [0, 8 / 10, 8 / 10 :: real]) * exp (1 / (5 / 100)) \<le> DBL_MAX"
    by (rule default_temperature_in_range) simp
  have "softmin_fun (Fin (5 / 100)) [0, 8 / 10, 8 / 10] =
        Fin ((\<Sum>x\<leftarrow>[0, 8 / 10, 8 / 10]. x * exp ((1 - x) / (5 / 100))) /
             (\<Sum>x\<leftarrow>[0, 8 / 10, 8 / 10]. exp ((1 - x) / (5 / 100))))"
    by (rule softmin_fun_exact [OF _ _ range]) auto
  then have v: "softmin_fun (Fin (5 / 100)) [0, 8 / 10, 8 / 10] =
        Fin ((8 / 10 * exp 4 + 8 / 10 * exp 4) / (exp 20 + (exp 4 + exp 4)))"
    by simp
  have e20: "exp (20 :: real) = exp 16 * exp 4" by (simp flip: exp_add)
  have a: "0 < exp (4 :: real)" by simp
  have "(8 / 10 * exp 4 + 8 / 10 * exp 4) / (exp 20 + (exp 4 + exp (4 :: real))) =
        ((16 / 10) * exp 4) / ((exp 16 + 2) * exp 4)"
    unfolding e20 by (simp add: algebra_simps)
  also have "\<dots> = (16 / 10) / (exp (16 :: real) + 2)"
    using a by simp
  finally have q: "(8 / 10 * exp 4 + 8 / 10 * exp 4) / (exp 20 + (exp 4 + exp (4 :: real))) =
        (16 / 10) / (exp (16 :: real) + 2)" .
  have pos: "0 < exp (16 :: real) + 2" by (simp add: add_pos_pos)
  have "179 / 10 ^ 9 < (16 / 10) / (exp (16 :: real) + 2)"
    using exp_16_bounds pos by (simp add: pos_less_divide_eq)
  moreover have "(16 / 10) / (exp (16 :: real) + 2) < 181 / 10 ^ 9"
    using exp_16_bounds pos by (simp add: pos_divide_less_eq)
  ultimately show ?thesis unfolding v q by blast
qed

lemma softmin_example_bounds:
  "\<exists>r. softmin_fun (Fin (5 / 100)) [9 / 10, 6 / 10] = Fin r \<and> 6 / 10 \<le> r \<and> r \<le> 9 / 10"
proof -
  have range: "real (length [9 / 10, 6 / 10 :: real]) * exp (1 / (5 / 100)) \<le> DBL_MAX"
    by (rule default_temperature_in_range) simp
  have "\<exists>r. softmin_fun (Fin (5 / 100)) [9 / 10, 6 / 10] = Fin r \<and>
          Min (set [9 / 10, 6 / 10]) \<le> r \<and> r \<le> Max (set [9 / 10, 6 / 10])"
    by (rule softmin_fun_bounds [OF _ _ range]) auto
  then show ?thesis by simp
qed

lemma softmin_example_3: "softmin_fun (Fin (5 / 100)) [8 / 10] = Fin (8 / 10)"
proof -
  have range: "real (length [8 / 10 :: real]) * exp (1 / (5 / 100)) \<le> DBL_MAX"
    by (rule default_temperature_in_range) simp
  have "softmin_fun (Fin (5 / 100)) [8 / 10] =
        Fin ((\<Sum>x\<leftarrow>[8 / 10]. x * exp ((1 - x) / (5 / 100))) /
             (\<Sum>x\<leftarrow>[8 / 10]. exp ((1 - x) / (5 / 100))))"
    by (rule softmin_fun_exact [OF _ _ range]) auto
  then show ?thesis by simp
qed

subsection \<open>Claims about the sentence aggregator\<close>

text \<open>
  Claim C5.  With the temperature exactly 0 the softmin aggregation returns, for every
  sentence, the least of its token scores; with the temperature \<open>+infinity\<close> it returns
  the arithmetic mean of its token scores.  The sentences are not empty; for the mean the
  token scores lie between 0 and 1, as token scores do, and a sentence has fewer than
  \<open>2 ^ 63\<close> tokens, as every numpy array has, so that the sum stays in range.
\<close>

theorem softmin_sentence_score_degenerate:
  "((\<forall>scores \<in> set token_scores. scores \<noteq> []) \<longrightarrow>
      softmin_sentence_score token_scores (Fin 0) =
        Inr (map (\<lambda>scores. Fin (Min (set scores))) token_scores)) \<and>
   ((\<forall>scores \<in> set token_scores.
        scores \<noteq> [] \<and> set scores \<subseteq> {0 .. 1} \<and> length scores < 2 ^ 63) \<longrightarrow>
      softmin_sentence_score token_scores PInf =
        Inr (map (\<lambda>scores. Fin (sum_list scores / real (length scores))) token_scores))"
proof (intro conjI impI)
  assume "\<forall>scores \<in> set token_scores. scores \<noteq> []"
  then have "map_sum id Fin (np_min scores) = Inr (Fin (Min (set scores)))"
    if "scores \<in> set token_scores" for scores
    using that by (simp add: np_min_eq)
  then show "softmin_sentence_score token_scores (Fin 0) =
        Inr (map (\<lambda>scores. Fin (Min (set scores))) token_scores)"
    by (simp add: softmin_sentence_score_def map_err_Inr)
next
  assume a: "\<forall>scores \<in> set token_scores.
        scores \<noteq> [] \<and> set scores \<subseteq> {0 .. 1} \<and> length scores < 2 ^ 63"
  have "np_mean scores = Fin (sum_list scores / real (length scores))"
    if "scores \<in> set token_scores" for scores
  proof (rule np_mean_eq)
    from a that show "scores \<noteq> []" by blast
    from a that have "set scores \<subseteq> {0 .. 1}" by blast
    then show "\<And>x. x \<in> set scores \<Longrightarrow> 0 \<le> x \<and> x \<le> 1" by auto
    from a that have "length scores < 2 ^ 63" by blast
    then have "real (length scores) < real (2 ^ 63)" by (simp only: of_nat_less_iff)
    then have "real (length scores) \<le> 2 ^ 63" by simp
    with pow2_le_DBL_MAX [of 63] show "real (length scores) \<le> DBL_MAX" by simp
  qed
  then show "softmin_sentence_score token_scores PInf =
        Inr (map (\<lambda>scores. Fin (sum_list scores / real (length scores))) token_scores)"
    by (simp add: softmin_sentence_score_def)
qed

theorem softmin_sentence_score_degenerate_witness:
  "[9 / 10, 6 / 10 :: real] \<noteq> [] \<and> [8 / 10 :: real] \<noteq> [] \<and>
   softmin_sentence_score [[9 / 10, 6 / 10], [8 / 10]] (Fin 0) =
     Inr [Fin (6 / 10), Fin (8 / 10)] \<and>
   softmin_sentence_score [[9 / 10, 6 / 10], [8 / 10]] PInf =
     Inr [Fin (3 / 4), Fin (8 / 10)]"
  using softmin_sentence_score_degenerate [of "[[9 / 10, 6 / 10], [8 / 10]]"]
  by simp

text \<open>
  The token scores of the docstring at the default temperature \<open>0.05\<close>: the three
  sentence scores are \<open>0.60074...\<close>, \<open>1.80...e-7\<close> and \<open>0.8\<close>, and they are the softmin
  scores of the specification.
\<close>

lemma softmin_docstring_example:
  "\<exists>x y. softmin_sentence_score [[9 / 10, 6 / 10], [0, 8 / 10, 8 / 10], [8 / 10]]
            default_temperature = Inr [Fin x, Fin y, Fin (8 / 10)] \<and>
          60074 / 100000 < x \<and> x < 60075 / 100000 \<and>
          179 / 10 ^ 9 < y \<and> y < 181 / 10 ^ 9"
proof -
  obtain x where x: "softmin_fun (Fin (5 / 100)) [9 / 10, 6 / 10] = Fin x"
    "60074 / 100000 < x" "x < 60075 / 100000"
    using softmin_example_1 by blast
  obtain y where y: "softmin_fun (Fin (5 / 100)) [0, 8 / 10, 8 / 10] = Fin y"
    "179 / 10 ^ 9 < y" "y < 181 / 10 ^ 9"
    using softmin_example_2 by blast
  have "softmin_sentence_score [[9 / 10, 6 / 10], [0, 8 / 10, 8 / 10], [8 / 10]]
            default_temperature = Inr [Fin x, Fin y, Fin (8 / 10)]"
    unfolding softmin_sentence_score_def default_temperature_def
    using x(1) y(1) softmin_example_3 by simp
  with x(2,3) y(2,3) show ?thesis by blast
qed

lemma softmin_docstring_example_spec:
  "softmin_sentence_score [[9 / 10, 6 / 10], [0, 8 / 10, 8 / 10], [8 / 10]]
     default_temperature =
   Inr (map (\<lambda>s. Fin (softmin_spec s (5 / 100)))
          [[9 / 10, 6 / 10], [0, 8 / 10, 8 / 10], [8 / 10]])"
  unfolding default_temperature_def
proof (rule softmin_sentence_score_in_range)
  fix s :: "real list"
  assume "s \<in> set [[9 / 10, 6 / 10], [0, 8 / 10, 8 / 10], [8 / 10]]"
  then have "s \<noteq> []" and "length s \<le> 3" by auto
  then show "s \<noteq> [] \<and> real (length s) * exp (1 / (5 / 100)) \<le> DBL_MAX"
    using default_temperature_in_range [of "length s"] by simp
qed auto

text \<open>
  The scores \<open>[0.0, 0.5]\<close> at the temperature \<open>0.001\<close>: the exponent of the first token
  is 1000, \<^verbatim>\<open>np.exp\<close> overflows to \<open>inf\<close>, the weight \<open>inf / inf\<close> is nan, and so is
  the score.
\<close>

lemma softmin_fun_overflow: "softmin_fun (Fin (1 / 1000)) [0, 5 / 10] = NaN"
proof -
  have a: "fl 1 = Fin 1" "fl (1 / 2) = Fin (1 / 2)" "fl 1000 = Fin 1000" "fl 500 = Fin 500"
    using pow2_le_DBL_MAX [of 10] by (simp_all add: fl_nonneg)
  have b: "fl (exp 1000) = PInf" using exp_1000_overflow by (simp add: fl_def)
  have c: "fl (exp 500) = Fin (exp 500)" using exp_500_in_range by (simp add: fl_nonneg)
  show ?thesis
    by (simp add: softmin_fun_def softmax_def np_dot_def np_sum_def np_sub_def a b c)
qed

text \<open>
  Claim C6 asks that at every finite temperature \<open>t > 0\<close> the softmin score of a sentence
  be the dot product of its token scores with the softmax of \<open>(1 - s) / t\<close>.  For the
  token scores \<open>[0.0, 0.5]\<close> and the temperature \<open>0.001\<close> that dot product is a real
  number between 0 and 0.5; the program returns nan.
\<close>

theorem softmin_sentence_score_not_dot_product:
  "softmin_sentence_score [[0, 5 / 10]] (Fin (1 / 1000)) = Inr [NaN] \<and>
   0 \<le> softmin_spec [0, 5 / 10] (1 / 1000) \<and> softmin_spec [0, 5 / 10] (1 / 1000) \<le> 5 / 10"
proof -
  have "softmin_sentence_score [[0, 5 / 10]] (Fin (1 / 1000)) = Inr [NaN]"
    using softmin_fun_overflow by (simp add: softmin_sentence_score_def)
  moreover have "0 \<le> softmin_spec [0, 5 / 10] (1 / 1000)"
    using softmin_spec_bounds(1) [of "[0, 5 / 10]" "1 / 1000"] by simp
  moreover have "softmin_spec [0, 5 / 10] (1 / 1000) \<le> 5 / 10"
    using softmin_spec_bounds(2) [of "[0, 5 / 10]" "1 / 1000"] by simp
  ultimately show ?thesis by blast
qed

text \<open>
  Claim C7 asks that the softmin score lie between the least and the greatest token score
  at every finite positive temperature.  With the token scores \<open>[0.0, 0.5]\<close> and the
  temperature \<open>0.001\<close> the exponent of the first token is 1000:
  \<^verbatim>\<open>np.exp\<close> overflows to \<open>inf\<close>, the weight \<open>inf / inf\<close> is nan, and so is the score.
\<close>

theorem softmin_sentence_score_overflow:
  "softmin_sentence_score [[0, 5 / 10]] (Fin (1 / 1000)) = Inr [NaN]"
  using softmin_fun_overflow by (simp add: softmin_sentence_score_def)

subsection \<open>Scoring a dataset\<close>

lemma nested_list_from_error: "nested_list_from i ls = Inl e \<Longrightarrow> e = StopIteration"
proof (induction ls arbitrary: i)
  case Nil then show ?case by simp
next
  case (Cons l ls)
  show ?case
  proof (cases "l \<le> length i")
    case False with Cons.prems show ?thesis by (simp add: next_n_eq)
  next
    case True
    with Cons.prems have "nested_list_from (drop l i) ls = Inl e"
      by (simp add: next_n_eq split: sum.splits)
    then show ?thesis by (rule Cons.IH)
  qed
qed

lemma map_err_error: "map_err f xs = Inl e \<Longrightarrow> \<exists>x \<in> set xs. f x = Inl e"
  by (induction xs) (auto split: sum.splits)

lemma np_min_error: "map_sum id Fin (np_min scores) = Inl e \<Longrightarrow> e = ValueError"
  by (cases scores) simp_all

lemma softmin_sentence_score_error:
  "softmin_sentence_score token_scores temperature = Inl e \<Longrightarrow> e = ValueError"
  by (auto simp: softmin_sentence_score_def split: if_splits dest!: map_err_error np_min_error)

lemma pd_Series_index_error: "pd_Series_index scores token = Inl e \<Longrightarrow> e = ValueError"
  by (simp add: pd_Series_index_def split: if_splits)

lemma get_label_quality_scores_errors:
  assumes "sentence_score_method \<in> set methods"
    and "get_label_quality_scores scorer labels pred_probs tokens token_score_method
           sentence_score_method sentence_score_kwargs = Inl e"
  shows "e = StopIteration \<or> e = ValueError \<or> (\<exists>d. e = ScorerError d)"
proof (cases "scorer (flatten labels) (flatten pred_probs) token_score_method")
  case (Inl d)
  with assms show ?thesis by (auto simp: get_label_quality_scores_def)
next
  case scored: (Inr token_scores)
  show ?thesis
  proof (cases "nested_list token_scores (map length labels)")
    case (Inl d)
    then have "d = StopIteration" by (simp add: nested_list_def nested_list_from_error)
    with assms scored Inl show ?thesis by (auto simp: get_label_quality_scores_def)
  next
    case nested: (Inr scores_nl)
    let ?agg = "if sentence_score_method = ''min''
                then map_err (\<lambda>scores. map_sum id Fin (np_min scores)) scores_nl
                else if sentence_score_method \<noteq> ''softmin''
                then Inl (AssertionError [])
                else softmin_sentence_score scores_nl
                       (case sentence_score_kwargs ''temperature'' of
                          None \<Rightarrow> Fin (5 / 100)
                        | Some temperature \<Rightarrow> temperature)"
    have agg: "d = ValueError" if "?agg = Inl d" for d
      using that assms(1)
      by (auto simp: methods_def split: if_splits
               dest!: map_err_error np_min_error softmin_sentence_score_error)
    show ?thesis
    proof (cases ?agg)
      case (Inl d)
      with agg have "d = ValueError" by blast
      with assms scored nested Inl show ?thesis
        by (auto simp: get_label_quality_scores_def)
    next
      case aggregated: (Inr sentence_scores)
      let ?info = "if truthy tokens
                   then map_err (\<lambda>(scores, token). pd_Series_index scores token)
                          (zip scores_nl (case tokens of Some t \<Rightarrow> t | None \<Rightarrow> []))
                   else Inr (map pd_Series scores_nl)"
      have info: "d = ValueError" if "?info = Inl d" for d
        using that by (auto split: if_splits dest!: map_err_error pd_Series_index_error)
      show ?thesis
      proof (cases ?info)
        case (Inl d)
        with info have "d = ValueError" by blast
        with assms scored nested aggregated Inl show ?thesis
          by (auto simp: get_label_quality_scores_def)
      next
        case (Inr token_info)
        with assms scored nested aggregated show ?thesis
          by (auto simp: get_label_quality_scores_def)
      qed
    qed
  qed
qed

lemma select_message_eq:
  "select_message =
     ''Select from the following methods:'' @ [CHR 0x0A] @ ''min'' @ [CHR 0x0A] @ ''softmin''"
  by (simp add: select_message_def methods_def)

text \<open>
  Claim C9.  A \<open>sentence_score_method\<close> other than \<open>min\<close> and \<open>softmin\<close> ends the call
  in the \<^verbatim>\<open>AssertionError\<close> whose message lists the two names, whatever the other
  arguments are and whatever the scorer would do with them: nothing is flattened, scored
  or aggregated before.  With one of the two names the call never ends in an
  \<^verbatim>\<open>AssertionError\<close>.
\<close>

theorem get_label_quality_scores_method_check:
  "(sentence_score_method \<notin> {''min'', ''softmin''} \<longrightarrow>
      get_label_quality_scores scorer labels pred_probs tokens token_score_method
        sentence_score_method sentence_score_kwargs =
      Inl (AssertionError (''Select from the following methods:'' @ [CHR 0x0A] @ ''min'' @
                           [CHR 0x0A] @ ''softmin''))) \<and>
   (sentence_score_method \<in> {''min'', ''softmin''} \<longrightarrow>
      (\<forall>m. get_label_quality_scores scorer labels pred_probs tokens token_score_method
             sentence_score_method sentence_score_kwargs \<noteq> Inl (AssertionError m)))"
proof (intro conjI impI allI)
  assume "sentence_score_method \<notin> {''min'', ''softmin''}"
  then have "sentence_score_method \<notin> set methods" by (simp add: methods_def)
  then show "get_label_quality_scores scorer labels pred_probs tokens token_score_method
        sentence_score_method sentence_score_kwargs =
      Inl (AssertionError (''Select from the following methods:'' @ [CHR 0x0A] @ ''min'' @
                           [CHR 0x0A] @ ''softmin''))"
    by (simp add: get_label_quality_scores_def select_message_eq)
next
  fix m
  assume "sentence_score_method \<in> {''min'', ''softmin''}"
  then have "sentence_score_method \<in> set methods" by (simp add: methods_def)
  from get_label_quality_scores_errors [OF this]
  show "get_label_quality_scores scorer labels pred_probs tokens token_score_method
             sentence_score_method sentence_score_kwargs \<noteq> Inl (AssertionError m)"
    by blast
qed

theorem get_label_quality_scores_method_check_witness:
  "''max'' \<notin> {''min'', ''softmin''} \<and>
   get_label_quality_scores self_confidence [[0, 0], [1]] [] (None :: string list list option)
     ''self_confidence'' ''max'' Map.empty =
   Inl (AssertionError (''Select from the following methods:'' @ [CHR 0x0A] @ ''min'' @
                        [CHR 0x0A] @ ''softmin'')) \<and>
   ''softmin'' \<in> {''min'', ''softmin''} \<and>
   (\<forall>m. get_label_quality_scores self_confidence [[0, 0], [1]] []
          (None :: string list list option) ''self_confidence'' ''softmin'' Map.empty
        \<noteq> Inl (AssertionError m))"
  using get_label_quality_scores_method_check [where sentence_score_method = "''max''"
      and scorer = self_confidence and labels = "[[0, 0], [1]]" and pred_probs = "[]"
      and token_score_method = "''self_confidence''"
      and tokens = "None :: string list list option" and sentence_score_kwargs = Map.empty]
    get_label_quality_scores_method_check [where sentence_score_method = "''softmin''"
      and scorer = self_confidence and labels = "[[0, 0], [1]]" and pred_probs = "[]"
      and token_score_method = "''self_confidence''"
      and tokens = "None :: string list list option" and sentence_score_kwargs = Map.empty]
  by simp

text \<open>
  The example of the docstring, with the self-confidence scorer.
\<close>

lemma get_label_quality_scores_docstring:
  "get_label_quality_scores self_confidence [[0, 0, 1], [0, 1]]
     [[[9 / 10, 1 / 10], [7 / 10, 3 / 10], [5 / 100, 95 / 100]],
      [[8 / 10, 2 / 10], [8 / 10, 2 / 10]]]
     (None :: string list list option) ''self_confidence'' ''min'' Map.empty =
   Inr ([Fin (7 / 10), Fin (2 / 10)],
        [[(Position 0, 9 / 10), (Position 1, 7 / 10), (Position 2, 95 / 100)],
         [(Position 0, 8 / 10), (Position 1, 2 / 10)]])"
  by (simp add: get_label_quality_scores_def methods_def self_confidence_def nested_list_def
      pd_Series_def upt_rec)

text \<open>
  Claim C3, as the specification states it, asks for an error whenever the sentences of
  \<open>labels\<close> and of \<open>pred_probs\<close> differ in length.  Here the first sentence has two
  labels and one probability row, the second one label and two rows; the totals agree,
  the call returns scores, and the second token of the first sentence is scored with the
  first row of the second sentence.
\<close>

theorem get_label_quality_scores_misaligned_counterexample:
  "map length [[0, 0], [1 :: int]] \<noteq>
     map length [[[9 / 10, 1 / 10]], [[7 / 10, 3 / 10], [5 / 100, 95 / 100 :: real]]] \<and>
   get_label_quality_scores self_confidence [[0, 0], [1]]
     [[[9 / 10, 1 / 10]], [[7 / 10, 3 / 10], [5 / 100, 95 / 100]]]
     (None :: string list list option) ''self_confidence'' ''min'' Map.empty =
   Inr ([Fin (7 / 10), Fin (95 / 100)],
        [[(Position 0, 9 / 10), (Position 1, 7 / 10)], [(Position 0, 95 / 100)]])"
  by (simp add: get_label_quality_scores_def methods_def self_confidence_def nested_list_def
      pd_Series_def upt_rec)

text \<open>
  What the call returns when the scorer gives one score per label, no sentence of
  \<open>labels\<close> is empty and the tokens, if given, have the sentence lengths of \<open>labels\<close>:
  the scorer's scores in their order, cut into sentences of the lengths of \<open>labels\<close>,
  each under its position or its token, and for every sentence the least of its scores
  or their softmin.  The sentence lengths of \<open>pred_probs\<close> do not occur.
\<close>

lemma length_flatten: "length (flatten xs) = sum_list (map length xs)"
  by (induction xs) simp_all

lemma nested_list_exact:
  assumes "length x = sum_list sentence_length"
  shows "\<exists>r. nested_list x sentence_length = Inr r \<and> map length r = sentence_length \<and>
             flatten r = x"
  using nested_list_from_enough [of sentence_length x] assms by (simp add: nested_list_def)

lemma softmin_sentence_score_total:
  assumes "\<And>s. s \<in> set token_scores \<Longrightarrow> s \<noteq> []"
  shows "\<exists>sentence_scores. softmin_sentence_score token_scores temperature = Inr sentence_scores"
proof (cases "temperature = Fin 0")
  case True
  have "map_sum id Fin (np_min s) = Inr (Fin (Min (set s)))" if "s \<in> set token_scores" for s
    using assms [OF that] by (simp add: np_min_eq)
  then have "map_err (\<lambda>scores. map_sum id Fin (np_min scores)) token_scores =
      Inr (map (\<lambda>s. Fin (Min (set s))) token_scores)"
    by (rule map_err_Inr)
  with True show ?thesis by (simp add: softmin_sentence_score_def)
next
  case False then show ?thesis by (simp add: softmin_sentence_score_def)
qed

lemma pd_Series_parts:
  "map snd (pd_Series scores) = scores"
  "map fst (pd_Series scores :: 'tok series) = map Position [0 ..< length scores]"
  by (simp_all add: pd_Series_def)

lemma token_series:
  "map length xs = map length ys \<Longrightarrow>
   map_err (\<lambda>(scores, token). pd_Series_index scores token) (zip xs ys) =
     Inr (map (\<lambda>(scores, token). zip (map Token token) scores) (zip xs ys)) \<and>
   map (map snd) (map (\<lambda>(scores, token). zip (map Token token) scores) (zip xs ys)) = xs \<and>
   map (map fst) (map (\<lambda>(scores, token). zip (map Token token) scores) (zip xs ys)) =
     map (map Token) ys"
proof (induction xs arbitrary: ys)
  case Nil then show ?case by simp
next
  case (Cons x xs)
  then obtain y ys' where ys: "ys = y # ys'" by (cases ys) auto
  with Cons.prems have len: "length y = length x" and rest: "map length xs = map length ys'"
    by simp_all
  from Cons.IH [OF rest] len show ?case
    by (simp add: ys pd_Series_index_def)
qed

lemma nonempty_by_lengths:
  assumes "map length xs = map length ys" and "\<And>y. y \<in> set ys \<Longrightarrow> y \<noteq> []"
    and "x \<in> set xs"
  shows "x \<noteq> []"
proof -
  from assms(3) have "length x \<in> set (map length xs)" by simp
  then have "length x \<in> set (map length ys)" by (simp only: assms(1))
  then obtain y where "y \<in> set ys" "length y = length x" by auto
  with assms(2) show ?thesis by force
qed

lemma get_label_quality_scores_nested:
  assumes m: "sentence_score_method \<in> set methods"
    and sc: "scorer (flatten labels) (flatten pred_probs) token_score_method = Inr token_scores"
    and len: "length token_scores = length (flatten labels)"
    and ne: "\<And>label. label \<in> set labels \<Longrightarrow> label \<noteq> []"
    and tk: "truthy tokens \<Longrightarrow>
             map length (case tokens of Some t \<Rightarrow> t | None \<Rightarrow> []) = map length labels"
  shows "\<exists>sentence_scores token_info.
     get_label_quality_scores scorer labels pred_probs tokens token_score_method
       sentence_score_method sentence_score_kwargs = Inr (sentence_scores, token_info) \<and>
     map length token_info = map length labels \<and>
     flatten (map (map snd) token_info) = token_scores \<and>
     (sentence_score_method = ''min'' \<longrightarrow>
        sentence_scores = map (\<lambda>series. Fin (Min (set (map snd series)))) token_info) \<and>
     (sentence_score_method = ''softmin'' \<longrightarrow>
        softmin_sentence_score (map (map snd) token_info)
          (case sentence_score_kwargs ''temperature'' of
             None \<Rightarrow> Fin (5 / 100) | Some temperature \<Rightarrow> temperature) = Inr sentence_scores) \<and>
     map (map fst) token_info =
       (if truthy tokens then map (map Token) (case tokens of Some t \<Rightarrow> t | None \<Rightarrow> [])
        else map (\<lambda>label. map Position [0 ..< length label]) labels)"
proof -
  let ?T = "case sentence_score_kwargs ''temperature'' of
              None \<Rightarrow> Fin (5 / 100) | Some temperature \<Rightarrow> temperature"
  let ?toks = "case tokens of Some t \<Rightarrow> t | None \<Rightarrow> []"
  from len have "length token_scores = sum_list (map length labels)"
    by (simp add: length_flatten)
  from nested_list_exact [OF this] obtain scores_nl where
    nl: "nested_list token_scores (map length labels) = Inr scores_nl"
    and shape: "map length scores_nl = map length labels"
    and flat: "flatten scores_nl = token_scores" by blast
  have nonempty: "s \<noteq> []" if "s \<in> set scores_nl" for s
    using shape ne that by (rule nonempty_by_lengths)
  let ?agg = "if sentence_score_method = ''min''
              then map_err (\<lambda>scores. map_sum id Fin (np_min scores)) scores_nl
              else if sentence_score_method \<noteq> ''softmin''
              then Inl (AssertionError [])
              else softmin_sentence_score scores_nl ?T"
  have min_scores: "map_err (\<lambda>scores. map_sum id Fin (np_min scores)) scores_nl =
      Inr (map (\<lambda>s. Fin (Min (set s))) scores_nl)"
    by (rule map_err_Inr) (simp add: np_min_eq nonempty)
  obtain soft where soft: "softmin_sentence_score scores_nl ?T = Inr soft"
    using softmin_sentence_score_total [of scores_nl ?T] nonempty by blast
  obtain sentence_scores where agg: "?agg = Inr sentence_scores"
    and agg_min: "sentence_score_method = ''min'' \<Longrightarrow>
                  sentence_scores = map (\<lambda>s. Fin (Min (set s))) scores_nl"
    and agg_soft: "sentence_score_method = ''softmin'' \<Longrightarrow>
                   softmin_sentence_score scores_nl ?T = Inr sentence_scores"
    using m min_scores soft by (auto simp: methods_def)
  let ?info = "if truthy tokens
               then map_err (\<lambda>(scores, token). pd_Series_index scores token)
                      (zip scores_nl ?toks)
               else Inr (map pd_Series scores_nl)"
  obtain token_info :: "'a series list" where info: "?info = Inr token_info"
    and vals: "map (map snd) token_info = scores_nl"
    and idx: "map (map fst) token_info =
       (if truthy tokens then map (map Token) ?toks
        else map (\<lambda>label. map Position [0 ..< length label]) labels)"
  proof (cases "truthy tokens")
    case True
    with tk shape have "map length scores_nl = map length ?toks" by simp
    from token_series [OF this] True that show ?thesis by simp
  next
    case False
    have "map (\<lambda>s. map Position [0 ..< length s]) scores_nl =
          map (\<lambda>n. map Position [0 ..< n]) (map length scores_nl)"
      by (simp add: comp_def)
    also have "\<dots> = map (\<lambda>label. map Position [0 ..< length label]) labels"
      by (simp only: shape) (simp add: comp_def)
    finally have "map (map fst) (map pd_Series scores_nl :: 'a series list) =
        map (\<lambda>label. map Position [0 ..< length label]) labels"
      by (simp add: pd_Series_parts comp_def)
    moreover have "map (map snd) (map pd_Series scores_nl :: 'a series list) = scores_nl"
      by (simp add: pd_Series_parts comp_def)
    ultimately show ?thesis using False that by simp
  qed
  have "get_label_quality_scores scorer labels pred_probs tokens token_score_method
       sentence_score_method sentence_score_kwargs = Inr (sentence_scores, token_info)"
    using m sc nl agg info by (simp add: get_label_quality_scores_def)
  moreover have "map length token_info = map length labels"
  proof -
    have "map length token_info = map length (map (map snd) token_info)"
      by (simp add: comp_def)
    then show ?thesis by (simp only: vals shape)
  qed
  moreover have "flatten (map (map snd) token_info) = token_scores"
    by (simp only: vals flat)
  moreover have "sentence_score_method = ''min'' \<longrightarrow>
        sentence_scores = map (\<lambda>series. Fin (Min (set (map snd series)))) token_info"
  proof
    assume "sentence_score_method = ''min''"
    then have "sentence_scores = map (\<lambda>s. Fin (Min (set s))) (map (map snd) token_info)"
      using agg_min by (simp only: vals)
    then show "sentence_scores = map (\<lambda>series. Fin (Min (set (map snd series)))) token_info"
      by (simp add: comp_def)
  qed
  moreover have "sentence_score_method = ''softmin'' \<longrightarrow>
        softmin_sentence_score (map (map snd) token_info) ?T = Inr sentence_scores"
    using agg_soft by (simp only: vals) blast
  ultimately show ?thesis using idx by blast
qed

text \<open>
  Claim C3, amended.  \<open>get_label_quality_scores\<close> does not compare the sentence lengths
  of \<open>labels\<close> and \<open>pred_probs\<close>.  It hands the flattened labels and the flattened
  probability rows to the token scorer and, with a valid method name, fails with the
  scorer's error whenever the scorer rejects them.  It reads \<open>pred_probs\<close> through its
  flattening only: two nestings of the same rows give the same outcome.  When the scorer
  returns one score per label (no sentence of \<open>labels\<close> empty; tokens, if given, of the
  sentence lengths of \<open>labels\<close>) the call succeeds and returns the scorer's scores nested
  by the sentence lengths of \<open>labels\<close>, indexed by position or by token, with the
  per-sentence minimum or softmin of these nested scores as the sentence scores.
\<close>

theorem get_label_quality_scores_shape:
  "(sentence_score_method \<in> set methods \<and>
    scorer (flatten labels) (flatten pred_probs) token_score_method = Inl d \<longrightarrow>
      get_label_quality_scores scorer labels pred_probs tokens token_score_method
        sentence_score_method sentence_score_kwargs = Inl (ScorerError d)) \<and>
   (flatten pred_probs = flatten pred_probs' \<longrightarrow>
      get_label_quality_scores scorer labels pred_probs tokens token_score_method
        sentence_score_method sentence_score_kwargs =
      get_label_quality_scores scorer labels pred_probs' tokens token_score_method
        sentence_score_method sentence_score_kwargs) \<and>
   (sentence_score_method \<in> set methods \<and>
    scorer (flatten labels) (flatten pred_probs) token_score_method = Inr token_scores \<and>
    length token_scores = length (flatten labels) \<and>
    (\<forall>label \<in> set labels. label \<noteq> []) \<and>
    (truthy tokens \<longrightarrow>
       map length (case tokens of Some t \<Rightarrow> t | None \<Rightarrow> []) = map length labels) \<longrightarrow>
      (\<exists>sentence_scores token_info.
         get_label_quality_scores scorer labels pred_probs tokens token_score_method
           sentence_score_method sentence_score_kwargs = Inr (sentence_scores, token_info) \<and>
         map length token_info = map length labels \<and>
         flatten (map (map snd) token_info) = token_scores \<and>
         (sentence_score_method = ''min'' \<longrightarrow>
            sentence_scores = map (\<lambda>series. Fin (Min (set (map snd series)))) token_info) \<and>
         (sentence_score_method = ''softmin'' \<longrightarrow>
            softmin_sentence_score (map (map snd) token_info)
              (case sentence_score_kwargs ''temperature'' of
                 None \<Rightarrow> Fin (5 / 100) | Some temperature \<Rightarrow> temperature) =
              Inr sentence_scores) \<and>
         map (map fst) token_info =
           (if truthy tokens
            then map (map Token) (case tokens of Some t \<Rightarrow> t | None \<Rightarrow> [])
            else map (\<lambda>label. map Position [0 ..< length label]) labels)))"
proof (intro conjI impI)
  assume "sentence_score_method \<in> set methods \<and>
    scorer (flatten labels) (flatten pred_probs) token_score_method = Inl d"
  then show "get_label_quality_scores scorer labels pred_probs tokens token_score_method
        sentence_score_method sentence_score_kwargs = Inl (ScorerError d)"
    by (simp add: get_label_quality_scores_def)
next
  assume "flatten pred_probs = flatten pred_probs'"
  then show "get_label_quality_scores scorer labels pred_probs tokens token_score_method
        sentence_score_method sentence_score_kwargs =
      get_label_quality_scores scorer labels pred_probs' tokens token_score_method
        sentence_score_method sentence_score_kwargs"
    by (simp add: get_label_quality_scores_def)
next
  assume a: "sentence_score_method \<in> set methods \<and>
    scorer (flatten labels) (flatten pred_probs) token_score_method = Inr token_scores \<and>
    length token_scores = length (flatten labels) \<and>
    (\<forall>label \<in> set labels. label \<noteq> []) \<and>
    (truthy tokens \<longrightarrow>
       map length (case tokens of Some t \<Rightarrow> t | None \<Rightarrow> []) = map length labels)"
  show "\<exists>sentence_scores token_info.
         get_label_quality_scores scorer labels pred_probs tokens token_score_method
           sentence_score_method sentence_score_kwargs = Inr (sentence_scores, token_info) \<and>
         map length token_info = map length labels \<and>
         flatten (map (map snd) token_info) = token_scores \<and>
         (sentence_score_method = ''min'' \<longrightarrow>
            sentence_scores = map (\<lambda>series. Fin (Min (set (map snd series)))) token_info) \<and>
         (sentence_score_method = ''softmin'' \<longrightarrow>
            softmin_sentence_score (map (map snd) token_info)
              (case sentence_score_kwargs ''temperature'' of
                 None \<Rightarrow> Fin (5 / 100) | Some temperature \<Rightarrow> temperature) =
              Inr sentence_scores) \<and>
         map (map fst) token_info =
           (if truthy tokens
            then map (map Token) (case tokens of Some t \<Rightarrow> t | None \<Rightarrow> [])
            else map (\<lambda>label. map Position [0 ..< length label]) labels)"
  proof (rule get_label_quality_scores_nested)
    from a show "sentence_score_method \<in> set methods"
      and "scorer (flatten labels) (flatten pred_probs) token_score_method = Inr token_scores"
      and "length token_scores = length (flatten labels)" by simp_all
    from a show "\<And>label. label \<in> set labels \<Longrightarrow> label \<noteq> []" by blast
    from a show "truthy tokens \<Longrightarrow>
       map length (case tokens of Some t \<Rightarrow> t | None \<Rightarrow> []) = map length labels" by blast
  qed
qed

theorem get_label_quality_scores_shape_witness:
  "''min'' \<in> set methods \<and>
   self_confidence (flatten [[0, 0], [1]]) (flatten [[[9 / 10, 1 / 10]], [[7 / 10, 3 / 10]]])
     ''self_confidence'' = Inl ''labels and pred_probs differ in length'' \<and>
   get_label_quality_scores self_confidence [[0, 0], [1]]
     [[[9 / 10, 1 / 10]], [[7 / 10, 3 / 10]]]
     (None :: string list list option) ''self_confidence'' ''min'' Map.empty =
   Inl (ScorerError ''labels and pred_probs differ in length'') \<and>
   flatten [[[9 / 10, 1 / 10]], [[7 / 10, 3 / 10], [5 / 100, 95 / 100 :: real]]] =
     flatten [[[9 / 10, 1 / 10], [7 / 10, 3 / 10]], [[5 / 100, 95 / 100]]] \<and>
   get_label_quality_scores self_confidence [[0, 0], [1]]
     [[[9 / 10, 1 / 10]], [[7 / 10, 3 / 10], [5 / 100, 95 / 100]]]
     (None :: string list list option) ''self_confidence'' ''min'' Map.empty =
   get_label_quality_scores self_confidence [[0, 0], [1]]
     [[[9 / 10, 1 / 10], [7 / 10, 3 / 10]], [[5 / 100, 95 / 100]]]
     (None :: string list list option) ''self_confidence'' ''min'' Map.empty \<and>
   self_confidence (flatten [[0, 0], [1]])
     (flatten [[[9 / 10, 1 / 10]], [[7 / 10, 3 / 10], [5 / 100, 95 / 100]]])
     ''self_confidence'' = Inr [9 / 10, 7 / 10, 95 / 100] \<and>
   length [9 / 10, 7 / 10, 95 / 100 :: real] = length (flatten [[0, 0], [1 :: int]]) \<and>
   [0, 0 :: int] \<noteq> [] \<and> [1 :: int] \<noteq> [] \<and>
   \<not> truthy (None :: string list list option) \<and>
   (\<exists>sentence_scores token_info.
      get_label_quality_scores self_confidence [[0, 0], [1]]
        [[[9 / 10, 1 / 10]], [[7 / 10, 3 / 10], [5 / 100, 95 / 100]]]
        (None :: string list list option) ''self_confidence'' ''min'' Map.empty =
      Inr (sentence_scores, token_info) \<and>
      map length token_info = map length [[0, 0], [1 :: int]] \<and>
      flatten (map (map snd) token_info) = [9 / 10, 7 / 10, 95 / 100] \<and>
      sentence_scores = map (\<lambda>series. Fin (Min (set (map snd series)))) token_info \<and>
      map (map fst) token_info =
        map (\<lambda>label. map Position [0 ..< length label]) [[0, 0], [1 :: int]])"
proof -
  let ?L = "[[0, 0], [1 :: int]]"
  let ?P1 = "[[[9 / 10, 1 / 10]], [[7 / 10, 3 / 10 :: real]]]"
  let ?P2 = "[[[9 / 10, 1 / 10]], [[7 / 10, 3 / 10], [5 / 100, 95 / 100 :: real]]]"
  let ?P3 = "[[[9 / 10, 1 / 10], [7 / 10, 3 / 10]], [[5 / 100, 95 / 100 :: real]]]"
  note rejected = get_label_quality_scores_shape [where sentence_score_method = "''min''"
      and scorer = self_confidence and labels = ?L and pred_probs = ?P1
      and token_score_method = "''self_confidence''"
      and d = "''labels and pred_probs differ in length''"
      and tokens = "None :: string list list option" and sentence_score_kwargs = Map.empty]
  note accepted = get_label_quality_scores_shape [where sentence_score_method = "''min''"
      and scorer = self_confidence and labels = ?L and pred_probs = ?P2 and pred_probs' = ?P3
      and token_score_method = "''self_confidence''"
      and token_scores = "[9 / 10, 7 / 10, 95 / 100]"
      and tokens = "None :: string list list option" and sentence_score_kwargs = Map.empty]
  have m: "''min'' \<in> set methods" by (simp add: methods_def)
  have r: "self_confidence (flatten ?L) (flatten ?P1) ''self_confidence'' =
      Inl ''labels and pred_probs differ in length''"
    by (simp add: self_confidence_def)
  have f: "flatten ?P2 = flatten ?P3" by simp
  have s: "self_confidence (flatten ?L) (flatten ?P2) ''self_confidence'' =
      Inr [9 / 10, 7 / 10, 95 / 100]"
    by (simp add: self_confidence_def)
  have l: "length [9 / 10, 7 / 10, 95 / 100 :: real] = length (flatten ?L)" by simp
  have n: "\<forall>label \<in> set ?L. label \<noteq> []" by simp
  have t: "\<not> truthy (None :: string list list option)" by simp
  from rejected m r have c1: "get_label_quality_scores self_confidence ?L ?P1
     (None :: string list list option) ''self_confidence'' ''min'' Map.empty =
     Inl (ScorerError ''labels and pred_probs differ in length'')" by blast
  from accepted f have c2: "get_label_quality_scores self_confidence ?L ?P2
     (None :: string list list option) ''self_confidence'' ''min'' Map.empty =
     get_label_quality_scores self_confidence ?L ?P3
     (None :: string list list option) ''self_confidence'' ''min'' Map.empty" by blast
  from accepted m s l n t have "\<exists>sentence_scores token_info.
      get_label_quality_scores self_confidence ?L ?P2
        (None :: string list list option) ''self_confidence'' ''min'' Map.empty =
      Inr (sentence_scores, token_info) \<and>
      map length token_info = map length ?L \<and>
      flatten (map (map snd) token_info) = [9 / 10, 7 / 10, 95 / 100] \<and>
      (''min'' = ''min'' \<longrightarrow>
         sentence_scores = map (\<lambda>series. Fin (Min (set (map snd series)))) token_info) \<and>
      (''min'' = ''softmin'' \<longrightarrow>
         softmin_sentence_score (map (map snd) token_info)
           (case Map.empty ''temperature'' of
              None \<Rightarrow> Fin (5 / 100) | Some temperature \<Rightarrow> temperature) =
           Inr sentence_scores) \<and>
      map (map fst) token_info =
        (if truthy (None :: string list list option)
         then map (map Token) (case None :: string list list option of
                                 Some t \<Rightarrow> t | None \<Rightarrow> [])
         else map (\<lambda>label. map Position [0 ..< length label]) ?L)"
    by blast
  then obtain sentence_scores and token_info :: "string series list" where
    "get_label_quality_scores self_confidence ?L ?P2
        (None :: string list list option) ''self_confidence'' ''min'' Map.empty =
      Inr (sentence_scores, token_info)"
    "map length token_info = map length ?L"
    "flatten (map (map snd) token_info) = [9 / 10, 7 / 10, 95 / 100]"
    "sentence_scores = map (\<lambda>series. Fin (Min (set (map snd series)))) token_info"
    "map (map fst) token_info = map (\<lambda>label. map Position [0 ..< length label]) ?L"
    by auto
  then have c3: "\<exists>sentence_scores token_info.
      get_label_quality_scores self_confidence ?L ?P2
        (None :: string list list option) ''self_confidence'' ''min'' Map.empty =
      Inr (sentence_scores, token_info) \<and>
      map length token_info = map length ?L \<and>
      flatten (map (map snd) token_info) = [9 / 10, 7 / 10, 95 / 100] \<and>
      sentence_scores = map (\<lambda>series. Fin (Min (set (map snd series)))) token_info \<and>
      map (map fst) token_info = map (\<lambda>label. map Position [0 ..< length label]) ?L"
    by blast
  have e: "[0, 0 :: int] \<noteq> []" "[1 :: int] \<noteq> []" by simp_all
  show ?thesis
    by (intro conjI m r c1 f c2 s l e t c3)
qed

subsection \<open>Sentence mode of the issue ranker\<close>

lemma cutoff_loop_eq:
  assumes "\<And>r. r \<in> set ranking \<Longrightarrow> r < length scores"
  shows "cutoff \<le> length ranking \<Longrightarrow>
    cutoff_loop scores ranking t cutoff =
      (if list_all (\<lambda>r. scores ! r < t) (drop cutoff ranking) then Inl IndexError
       else Inr (cutoff + length (takeWhile (\<lambda>r. scores ! r < t) (drop cutoff ranking))))"
proof (induction "length ranking - cutoff" arbitrary: cutoff)
  case 0
  then have "np_index ranking cutoff = Inl IndexError" by (simp add: np_index_def)
  with 0 show ?case by (subst cutoff_loop.simps) simp
next
  case (Suc d)
  then have lt: "cutoff < length ranking" by simp
  then have dr: "drop cutoff ranking = ranking ! cutoff # drop (Suc cutoff) ranking"
    by (simp add: Cons_nth_drop_Suc)
  from lt have "ranking ! cutoff \<in> set ranking" by simp
  then have r: "ranking ! cutoff < length scores" by (rule assms)
  show ?case
  proof (cases "scores ! (ranking ! cutoff) < t")
    case True
    from Suc have "cutoff_loop scores ranking t (Suc cutoff) =
      (if list_all (\<lambda>r. scores ! r < t) (drop (Suc cutoff) ranking) then Inl IndexError
       else Inr (Suc cutoff +
              length (takeWhile (\<lambda>r. scores ! r < t) (drop (Suc cutoff) ranking))))"
      by (intro Suc.hyps(1)) simp_all
    with True lt r show ?thesis
      by (subst cutoff_loop.simps) (simp add: np_index_def dr del: cutoff_loop.simps)
  next
    case False
    with lt r show ?thesis
      by (subst cutoff_loop.simps) (simp add: np_index_def dr del: cutoff_loop.simps)
  qed
qed

lemma set_argsort: "set (argsort tie_order scores) = {0 ..< length scores}"
  by (simp add: argsort_def)

lemma sorted_argsort: "sorted (map (\<lambda>i. scores ! i) (argsort tie_order scores))"
  by (simp add: argsort_def)

lemma distinct_argsort: "distinct (argsort tie_order scores)"
  by (simp add: argsort_def)

text \<open>
  With the index as the tie order the ranking is the one of a stable sort; another tie
  order gives the ranking numpy was seen to return on the same scores.
\<close>

lemma argsort_tie_orders:
  "argsort (\<lambda>i. i) [25 / 100, 25 / 100, 125 / 1000, 125 / 1000, 75 / 100] = [2, 3, 0, 1, 4]"
  "argsort (\<lambda>i. 4 - i) [25 / 100, 25 / 100, 125 / 1000, 125 / 1000, 75 / 100] = [3, 2, 1, 0, 4]"
  by (simp_all add: argsort_def upt_rec)

text \<open>
  Every ranking that lists each index once in ascending order of score is the
  \<open>argsort\<close> of some tie order: the position in that ranking.
\<close>

lemma position_in_distinct:
  assumes "distinct xs"
  shows "map (\<lambda>x. length (takeWhile (\<lambda>y. y \<noteq> x) xs)) xs = [0 ..< length xs]"
proof (rule nth_equalityI)
  show "length (map (\<lambda>x. length (takeWhile (\<lambda>y. y \<noteq> x) xs)) xs) = length [0 ..< length xs]"
    by simp
next
  fix k assume "k < length (map (\<lambda>x. length (takeWhile (\<lambda>y. y \<noteq> x) xs)) xs)"
  then have k: "k < length xs" by simp
  have "takeWhile (\<lambda>y. y \<noteq> xs ! k) xs = take k xs"
  proof (rule takeWhile_eq_take_P_nth)
    fix i assume "i < k" "i < length xs"
    with assms k show "xs ! i \<noteq> xs ! k" by (simp add: nth_eq_iff_index_eq)
  next
    show "\<not> xs ! k \<noteq> xs ! k" by simp
  qed
  with k show "map (\<lambda>x. length (takeWhile (\<lambda>y. y \<noteq> x) xs)) xs ! k = [0 ..< length xs] ! k"
    by simp
qed

lemma argsort_complete:
  assumes perm: "sort ranking = [0 ..< length scores]"
    and sorted: "sorted (map (\<lambda>i. scores ! i) ranking)"
  shows "\<exists>tie_order. argsort tie_order scores = ranking"
proof -
  let ?pos = "\<lambda>x. length (takeWhile (\<lambda>y. y \<noteq> x) ranking)"
  let ?ys = "sort_key ?pos [0 ..< length scores]"
  have "set (sort ranking) = set [0 ..< length scores]" by (simp only: perm)
  then have set_r: "set ranking = {0 ..< length scores}" by simp
  have "distinct (sort ranking)" by (simp only: perm distinct_upt)
  then have dist_r: "distinct ranking" by simp
  have "length (sort ranking) = length [0 ..< length scores]" by (simp only: perm)
  then have len_r: "length ranking = length scores" by simp
  have pos_r: "map ?pos ranking = [0 ..< length scores]"
    using position_in_distinct [OF dist_r] by (simp only: len_r)
  have "distinct (map ?pos ranking)" by (simp only: pos_r distinct_upt)
  then have inj: "inj_on ?pos (set ranking)" by (simp only: distinct_map)
  have set_ys: "set ?ys = set ranking" by (simp only: set_sort set_r set_upt)
  have sorted_ys: "sorted (map ?pos ?ys)" by (rule sorted_sort_key)
  have "distinct ?ys" by (simp only: distinct_sort distinct_upt)
  with inj have distinct_ys: "distinct (map ?pos ?ys)"
    by (simp only: distinct_map set_ys simp_thms)
  have "set (map ?pos ?ys) = set (map ?pos ranking)" by (simp only: set_map set_ys)
  then have "set (map ?pos ?ys) = set [0 ..< length scores]" by (simp only: pos_r)
  with sorted_ys distinct_ys have "map ?pos ?ys = [0 ..< length scores]"
    by (intro sorted_distinct_set_unique) simp_all
  then have eq: "map ?pos ?ys = map ?pos ranking" by (simp only: pos_r)
  have "inj_on ?pos (set ?ys \<union> set ranking)" using inj by (simp only: set_ys Un_absorb)
  from inj_on_map_eq_map [OF this] eq have "?ys = ranking" by blast
  moreover have "sort_key (\<lambda>i. scores ! i) ranking = ranking"
    using sorted by (rule sort_key_id_if_sorted)
  ultimately have "argsort ?pos scores = ranking" by (simp only: argsort_def)
  then show ?thesis by (rule exI [of _ ?pos])
qed

lemma length_takeWhile_take: "take (length (takeWhile P xs)) xs = takeWhile P xs"
  by (induction xs) simp_all

lemma sorted_takeWhile_below:
  fixes f :: "'a \<Rightarrow> real"
  shows "sorted (map f xs) \<Longrightarrow> takeWhile (\<lambda>x. f x < t) xs = filter (\<lambda>x. f x < t) xs"
proof (induction xs)
  case Nil show ?case by simp
next
  case (Cons x xs)
  show ?case
  proof (cases "f x < t")
    case True with Cons show ?thesis by simp
  next
    case False
    with Cons.prems have "\<And>y. y \<in> set xs \<Longrightarrow> \<not> f y < t" by auto
    then have "filter (\<lambda>x. f x < t) xs = []" by (simp add: filter_empty_conv)
    with False show ?thesis by simp
  qed
qed

lemma sentence_issues_eq:
  "sentence_issues tie_order scores t =
     (if list_all (\<lambda>s. s < t) scores then Inl IndexError
      else Inr (filter (\<lambda>i. scores ! i < t) (argsort tie_order scores)))"
proof -
  let ?ranking = "argsort tie_order scores"
  have in_range: "\<And>r. r \<in> set ?ranking \<Longrightarrow> r < length scores"
    by (simp add: set_argsort)
  have "list_all (\<lambda>r. scores ! r < t) ?ranking = list_all (\<lambda>s. s < t) scores"
    by (auto simp: list_all_iff set_argsort all_set_conv_all_nth)
  moreover have "take (length (takeWhile (\<lambda>r. scores ! r < t) ?ranking)) ?ranking
      = filter (\<lambda>i. scores ! i < t) ?ranking"
    using sorted_takeWhile_below [OF sorted_argsort [of scores tie_order], of t]
      length_takeWhile_take [of "\<lambda>r. scores ! r < t" ?ranking]
    by simp
  ultimately show ?thesis
    by (simp add: sentence_issues_def cutoff_loop_eq [OF in_range] del: cutoff_loop.simps)
qed

text \<open>
  What the sentence branch does on every input and for every order among equal scores:
  it raises when no sentence reaches the threshold (an empty \<open>sentence_scores\<close>
  included), and otherwise returns the indices below the threshold, each once, in
  ascending order of score.
\<close>

lemma sentence_issues_all_below:
  "list_all (\<lambda>s. s < t) scores \<Longrightarrow> sentence_issues tie_order scores t = Inl IndexError"
  by (simp add: sentence_issues_eq)

lemma sentence_issues_some_above:
  assumes "\<not> list_all (\<lambda>s. s < t) scores"
  shows "\<exists>r. sentence_issues tie_order scores t = Inr r \<and>
             set r = {i. i < length scores \<and> scores ! i < t} \<and> distinct r \<and>
             sorted (map (\<lambda>i. scores ! i) r)"
proof -
  let ?r = "filter (\<lambda>i. scores ! i < t) (argsort tie_order scores)"
  have "sentence_issues tie_order scores t = Inr ?r"
    using assms by (simp add: sentence_issues_eq)
  moreover have "set ?r = {i. i < length scores \<and> scores ! i < t}"
    by (auto simp: set_argsort)
  moreover have "distinct ?r" by (simp add: distinct_argsort)
  moreover have "sorted (map (\<lambda>i. scores ! i) ?r)"
    using sorted_argsort [of scores tie_order] by (simp add: sorted_map sorted_wrt_filter)
  ultimately show ?thesis by blast
qed

lemma issues_from_scores_sentence_mode:
  "\<not> truthy token_scores \<Longrightarrow>
   issues_from_scores tie_order sentence_scores token_scores threshold =
     map_sum id SentenceIssues (sentence_issues tie_order sentence_scores threshold)"
  by (cases "(tie_order, sentence_scores, token_scores, threshold)"
        rule: issues_from_scores.cases)
     (auto split: sum.splits)

text \<open>
  The example of the docstring: two sentences are below the default threshold, whatever
  the order among equal scores.
\<close>

lemma issues_from_scores_docstring_sentences:
  "issues_from_scores tie_order
     [1 / 10, 3 / 10, 6 / 10, 2 / 10, 5 / 100, 9 / 10, 8 / 10, 125 / 10000, 5 / 10, 6 / 10]
     None (1 / 10) = Inr (SentenceIssues [7, 4])"
proof -
  let ?scores = "[1 / 10, 3 / 10, 6 / 10, 2 / 10, 5 / 100, 9 / 10, 8 / 10, 125 / 10000,
                  5 / 10, 6 / 10 :: real]"
  have kept: "filter (\<lambda>i. ?scores ! i < 1 / 10) [0 ..< length ?scores] = [4, 7]"
    by (simp add: upt_rec)
  have "filter (\<lambda>i. ?scores ! i < 1 / 10) (argsort tie_order ?scores) =
        sort_key (\<lambda>i. ?scores ! i) (sort_key tie_order
          (filter (\<lambda>i. ?scores ! i < 1 / 10) [0 ..< length ?scores]))"
    unfolding argsort_def by (simp only: filter_sort)
  also have "\<dots> = [7, 4]" unfolding kept by simp
  finally have "sentence_issues tie_order ?scores (1 / 10) = Inr [7, 4]"
    by (simp add: sentence_issues_eq)
  then show ?thesis by simp
qed

text \<open>
  Claim C1 asks that the sentence branch return every index when every sentence is below
  the threshold.  With the one sentence score \<open>0.05\<close> and the threshold \<open>0.1\<close> the
  loop reaches \<open>cutoff = 1\<close> and reads \<^verbatim>\<open>ranking[1]\<close> of a ranking of length one:
  the call ends in \<^verbatim>\<open>IndexError\<close>.
\<close>

theorem issues_from_scores_all_below_raises:
  "issues_from_scores tie_order [5 / 100] None (1 / 10) = Inl IndexError"
  by (simp add: sentence_issues_all_below)

subsection \<open>Token mode of the issue ranker\<close>

lemma triples_from_Nil: "triples_from n [] t = []"
  by (simp add: triples_from_def)

lemma triples_from_Cons:
  "triples_from n (scores # rest) t =
     map (\<lambda>(j, s). (n, j, s)) (filter (\<lambda>(j, s). s < t) (enumerate 0 scores))
     @ triples_from (Suc n) rest t"
  by (simp add: triples_from_def)

lemma set_sentence_triples:
  "set (map (\<lambda>(j, s). (n, j, s)) (filter (\<lambda>(j, s). s < t) (enumerate 0 scores))) =
   {(i, j, s). i = n \<and> j < length scores \<and> s = scores ! j \<and> s < t}"
  by (auto simp: in_set_enumerate_eq image_iff)

lemma sorted_sentence_triples:
  "sorted_wrt scan_before
     (map (\<lambda>(j, s). (n, j, s)) (filter (\<lambda>(j, s). s < t) (enumerate 0 scores)))"
proof -
  have "sorted_wrt (<) (map fst (enumerate 0 scores))" by simp
  then have "sorted_wrt (\<lambda>a b. fst a < fst b) (enumerate 0 scores)"
    by (simp only: sorted_wrt_map)
  then have "sorted_wrt (\<lambda>a b. fst a < fst b) (filter (\<lambda>(j, s). s < t) (enumerate 0 scores))"
    by (rule sorted_wrt_filter)
  then show ?thesis
    by (simp add: sorted_wrt_map scan_before_def case_prod_beta)
qed

lemma set_triples_from:
  "set (triples_from n ts t) =
   {(n + k, j, ts ! k ! j) | k j. k < length ts \<and> j < length (ts ! k) \<and> ts ! k ! j < t}"
proof (induction ts arbitrary: n)
  case Nil show ?case by (simp add: triples_from_Nil)
next
  case (Cons scores rest)
  let ?A = "{(i, j, s). i = n \<and> j < length scores \<and> s = scores ! j \<and> s < t}"
  let ?B = "{(Suc n + k, j, rest ! k ! j) | k j.
               k < length rest \<and> j < length (rest ! k) \<and> rest ! k ! j < t}"
  let ?C = "{(n + k, j, (scores # rest) ! k ! j) | k j.
               k < length (scores # rest) \<and> j < length ((scores # rest) ! k) \<and>
               (scores # rest) ! k ! j < t}"
  have "set (triples_from n (scores # rest) t) = ?A \<union> ?B"
    unfolding triples_from_Cons set_append set_sentence_triples Cons.IH ..
  also have "?A \<union> ?B = ?C"
  proof (intro equalityI subsetI)
    fix x assume "x \<in> ?A \<union> ?B"
    then show "x \<in> ?C"
    proof
      assume "x \<in> ?A"
      then obtain j where "x = (n + 0, j, (scores # rest) ! 0 ! j)" "j < length scores"
        "scores ! j < t" by auto
      then show ?thesis by (intro CollectI exI [of _ 0] exI [of _ j]) simp
    next
      assume "x \<in> ?B"
      then obtain k j where "x = (n + Suc k, j, (scores # rest) ! Suc k ! j)"
        "k < length rest" "j < length (rest ! k)" "rest ! k ! j < t" by auto
      then show ?thesis by (intro CollectI exI [of _ "Suc k"] exI [of _ j]) simp
    qed
  next
    fix x assume "x \<in> ?C"
    then obtain k j where x: "x = (n + k, j, (scores # rest) ! k ! j)"
      "k < length (scores # rest)" "j < length ((scores # rest) ! k)"
      "(scores # rest) ! k ! j < t" by auto
    show "x \<in> ?A \<union> ?B"
    proof (cases k)
      case 0 with x show ?thesis by simp
    next
      case (Suc k')
      with x have "x \<in> ?B" by (intro CollectI exI [of _ k'] exI [of _ j]) simp
      then show ?thesis ..
    qed
  qed
  finally show ?case .
qed

lemma sorted_triples_from: "sorted_wrt scan_before (triples_from n ts t)"
proof (induction ts arbitrary: n)
  case Nil show ?case by (simp add: triples_from_Nil)
next
  case (Cons scores rest)
  have "scan_before a b"
    if "a \<in> set (map (\<lambda>(j, s). (n, j, s)) (filter (\<lambda>(j, s). s < t) (enumerate 0 scores)))"
      and "b \<in> set (triples_from (Suc n) rest t)" for a b
    using that unfolding set_sentence_triples set_triples_from
    by (auto simp: scan_before_def)
  with Cons.IH [of "Suc n"] sorted_sentence_triples [of n t scores] show ?case
    by (simp add: triples_from_Cons sorted_wrt_append)
qed

lemma issues_with_scores_triples: "issues_with_scores ts t = triples_from 0 ts t"
  by (simp add: issues_with_scores_def triples_from_def)

lemma sorted_wrt_insort_key_ties:
  fixes k :: "'a \<Rightarrow> 'b :: linorder"
  assumes "sorted_wrt (\<lambda>a b. k a < k b \<or> (k a = k b \<and> R a b)) ys"
    and "\<And>y. y \<in> set ys \<Longrightarrow> R x y"
  shows "sorted_wrt (\<lambda>a b. k a < k b \<or> (k a = k b \<and> R a b)) (insort_key k x ys)"
  using assms
proof (induction ys)
  case Nil show ?case by simp
next
  case (Cons y ys)
  show ?case
  proof (cases "k x \<le> k y")
    case True
    have "k x < k z \<or> (k x = k z \<and> R x z)" if "z \<in> set (y # ys)" for z
    proof -
      have "k y \<le> k z" using that Cons.prems(1) by auto
      with True have "k x \<le> k z" by simp
      moreover have "R x z" using that Cons.prems(2) by blast
      ultimately show ?thesis by auto
    qed
    with True Cons.prems(1) show ?thesis by simp
  next
    case False
    have "sorted_wrt (\<lambda>a b. k a < k b \<or> (k a = k b \<and> R a b)) (insort_key k x ys)"
      using Cons.prems by (intro Cons.IH) auto
    with False Cons.prems(1) show ?thesis by (auto simp: set_insort_key)
  qed
qed

lemma sorted_wrt_sort_key_ties:
  fixes k :: "'a \<Rightarrow> 'b :: linorder"
  assumes "sorted_wrt R xs"
  shows "sorted_wrt (\<lambda>a b. k a < k b \<or> (k a = k b \<and> R a b)) (sort_key k xs)"
  using assms
proof (induction xs)
  case Nil show ?case by simp
next
  case (Cons x xs)
  then have "sorted_wrt (\<lambda>a b. k a < k b \<or> (k a = k b \<and> R a b)) (sort_key k xs)" by simp
  moreover have "R x y" if "y \<in> set (sort_key k xs)" for y
    using that Cons.prems by simp
  ultimately have "sorted_wrt (\<lambda>a b. k a < k b \<or> (k a = k b \<and> R a b))
      (insort_key k x (sort_key k xs))"
    by (rule sorted_wrt_insort_key_ties)
  then show ?case by simp
qed

lemma set_issues_with_scores:
  "set (issues_with_scores ts t) =
   {(i, j, ts ! i ! j) | i j. i < length ts \<and> j < length (ts ! i) \<and> ts ! i ! j < t}"
  by (simp add: issues_with_scores_triples set_triples_from)

lemma set_token_issues:
  "set (token_issues ts t) = {(i, j). i < length ts \<and> j < length (ts ! i) \<and> ts ! i ! j < t}"
  unfolding token_issues_def set_map set_sort set_issues_with_scores
  by (auto simp: image_iff)

lemma token_issues_ordered:
  "sorted_wrt (\<lambda>(i, j) (i', j'). ts ! i ! j < ts ! i' ! j' \<or>
                 (ts ! i ! j = ts ! i' ! j' \<and> (i < i' \<or> (i = i' \<and> j < j'))))
     (token_issues ts t)"
proof -
  let ?k = "\<lambda>(i :: nat, j :: nat, score :: real). score"
  let ?Q = "\<lambda>a b. ?k a < ?k b \<or> (?k a = ?k b \<and> scan_before a b)"
  let ?sorted = "sort_key ?k (issues_with_scores ts t)"
  have "sorted_wrt scan_before (issues_with_scores ts t)"
    by (simp add: issues_with_scores_triples sorted_triples_from)
  then have "sorted_wrt ?Q ?sorted" by (rule sorted_wrt_sort_key_ties)
  moreover have "snd (snd a) = ts ! fst a ! fst (snd a)" if "a \<in> set ?sorted" for a
    using that unfolding set_sort set_issues_with_scores by auto
  ultimately have "sorted_wrt (\<lambda>a b.
      ts ! fst a ! fst (snd a) < ts ! fst b ! fst (snd b) \<or>
      (ts ! fst a ! fst (snd a) = ts ! fst b ! fst (snd b) \<and> scan_before a b)) ?sorted"
    by (rule_tac sorted_wrt_mono_rel [where P = ?Q]) (auto simp: case_prod_beta)
  then show ?thesis
    by (simp add: token_issues_def sorted_wrt_map scan_before_def case_prod_beta)
qed

lemma distinct_token_issues: "distinct (token_issues ts t)"
proof -
  have "sorted_wrt (\<lambda>a b. a \<noteq> b) (token_issues ts t)"
    by (rule sorted_wrt_mono_rel [OF _ token_issues_ordered [of ts t]]) auto
  then show ?thesis by (simp add: distinct_conv_nth sorted_wrt_iff_nth_less) (metis nat_neq_iff)
qed

lemma sorted_token_issues: "sorted (map (\<lambda>(i, j). ts ! i ! j) (token_issues ts t))"
proof -
  have "sorted_wrt (\<lambda>a b. (case a of (i, j) \<Rightarrow> ts ! i ! j) \<le> (case b of (i, j) \<Rightarrow> ts ! i ! j))
          (token_issues ts t)"
    by (rule sorted_wrt_mono_rel [OF _ token_issues_ordered [of ts t]]) auto
  then show ?thesis by (simp add: sorted_map)
qed

text \<open>
  The example of the docstring in token mode.
\<close>

lemma issues_from_scores_docstring_tokens:
  "issues_from_scores tie_order
     [1 / 10, 3 / 10, 6 / 10, 2 / 10, 5 / 100, 9 / 10, 8 / 10, 125 / 10000, 5 / 10, 6 / 10]
     (Some [[9 / 10, 6 / 10], [0, 8 / 10, 8 / 10], [8 / 10, 8 / 10],
            [1 / 10, 2 / 100, 3 / 10, 4 / 10], [1 / 10, 2 / 10, 3 / 100, 4 / 10],
            [1 / 10, 2 / 10, 3 / 10, 4 / 100], [1 / 10, 2 / 10, 4 / 10], [3 / 10, 4 / 10],
            [8 / 100, 2 / 10, 5 / 10, 4 / 10], [1 / 10, 2 / 10, 3 / 10, 4 / 10]])
     (1 / 10)
   = Inr (TokenIssues [(1, 0), (3, 1), (4, 2), (5, 3), (8, 0)])"
  by (simp add: token_issues_def issues_with_scores_def)

lemma issues_from_scores_token_mode:
  "token_scores \<noteq> [] \<Longrightarrow>
   issues_from_scores tie_order sentence_scores (Some token_scores) threshold =
     Inr (TokenIssues (token_issues token_scores threshold))"
  by (cases token_scores) simp_all

text \<open>
  Claim C4.  In token mode (token scores supplied and not empty) the result is the list
  of the pairs \<open>(i, j)\<close> with \<open>token_scores[i][j] < threshold\<close>: every such pair and no
  other, each once, in ascending order of the score they point at; the result holds
  pairs only, no score.
\<close>

theorem issues_from_scores_token_threshold:
  "token_scores \<noteq> [] \<Longrightarrow>
   \<exists>r. issues_from_scores tie_order sentence_scores (Some token_scores) threshold = Inr (TokenIssues r) \<and>
       set r = {(i, j). i < length token_scores \<and> j < length (token_scores ! i) \<and>
                        token_scores ! i ! j < threshold} \<and>
       distinct r \<and> sorted (map (\<lambda>(i, j). token_scores ! i ! j) r)"
  by (simp add: issues_from_scores_token_mode set_token_issues distinct_token_issues
        sorted_token_issues)

theorem issues_from_scores_token_threshold_witness:
  "[[9 / 10, 5 / 100], [5 / 100, 8 / 10, 1 / 100 :: real]] \<noteq> [] \<and>
   (\<exists>r. issues_from_scores (\<lambda>i. i) [] (Some [[9 / 10, 5 / 100], [5 / 100, 8 / 10, 1 / 100]]) (1 / 10)
           = Inr (TokenIssues r) \<and>
        set r = {(i, j). i < length [[9 / 10, 5 / 100], [5 / 100, 8 / 10, 1 / 100 :: real]] \<and>
                   j < length ([[9 / 10, 5 / 100], [5 / 100, 8 / 10, 1 / 100 :: real]] ! i) \<and>
                   [[9 / 10, 5 / 100], [5 / 100, 8 / 10, 1 / 100 :: real]] ! i ! j < 1 / 10} \<and>
        distinct r \<and>
        sorted (map (\<lambda>(i, j). [[9 / 10, 5 / 100], [5 / 100, 8 / 10, 1 / 100 :: real]] ! i ! j) r))"
proof -
  have h: "[[9 / 10, 5 / 100], [5 / 100, 8 / 10, 1 / 100 :: real]] \<noteq> []" by simp
  show ?thesis
    by (rule conjI [OF h issues_from_scores_token_threshold [OF h]])
qed

text \<open>
  Claim C10.  In token mode the result is ordered by score, and pairs whose scores are
  equal stand in the order of the scan: by sentence index, then by token index.
\<close>

theorem issues_from_scores_token_ties:
  "token_scores \<noteq> [] \<Longrightarrow>
   \<exists>r. issues_from_scores tie_order sentence_scores (Some token_scores) threshold = Inr (TokenIssues r) \<and>
       sorted_wrt (\<lambda>(i, j) (i', j').
           token_scores ! i ! j < token_scores ! i' ! j' \<or>
           (token_scores ! i ! j = token_scores ! i' ! j' \<and> (i < i' \<or> (i = i' \<and> j < j')))) r"
  by (simp add: issues_from_scores_token_mode token_issues_ordered)

theorem issues_from_scores_token_ties_witness:
  "[[5 / 100, 5 / 100], [5 / 100, 1 / 100 :: real]] \<noteq> [] \<and>
   issues_from_scores (\<lambda>i. i) [] (Some [[5 / 100, 5 / 100], [5 / 100, 1 / 100]]) (1 / 10)
     = Inr (TokenIssues [(1, 1), (0, 0), (0, 1), (1, 0)]) \<and>
   (\<exists>r. issues_from_scores (\<lambda>i. i) [] (Some [[5 / 100, 5 / 100], [5 / 100, 1 / 100]]) (1 / 10)
           = Inr (TokenIssues r) \<and>
        sorted_wrt (\<lambda>(i, j) (i', j').
           [[5 / 100, 5 / 100], [5 / 100, 1 / 100 :: real]] ! i ! j
             < [[5 / 100, 5 / 100], [5 / 100, 1 / 100]] ! i' ! j' \<or>
           ([[5 / 100, 5 / 100], [5 / 100, 1 / 100 :: real]] ! i ! j
              = [[5 / 100, 5 / 100], [5 / 100, 1 / 100]] ! i' ! j' \<and>
            (i < i' \<or> (i = i' \<and> j < j')))) r)"
proof -
  have h: "[[5 / 100, 5 / 100], [5 / 100, 1 / 100 :: real]] \<noteq> []" by simp
  have e: "issues_from_scores (\<lambda>i. i) [] (Some [[5 / 100, 5 / 100], [5 / 100, 1 / 100]]) (1 / 10)
     = Inr (TokenIssues [(1, 1), (0, 0), (0, 1), (1, 0)])"
    by (simp add: token_issues_def issues_with_scores_def)
  show ?thesis
    by (intro conjI h e issues_from_scores_token_ties [OF h])
qed

end
